theory Spec2Isabelle
  imports Complex_Main "HOL-Library.Word"
begin

section \<open>The Vorbis encoder element (ext/vorbis/vorbisenc.c)\<close>

text \<open>
  A shallow embedding of the encoder element: the instance structure as a record, the
  property setter, the backend set-up, the two granule-position conversions, the header
  handshake and the ingestion and drain loops of the chain function, and the end-of-stream
  path. The compression backend (libvorbis) and the downstream pad are collaborators the
  element only calls: what the element hands to them is recorded in a trace, and what
  they answer is an input of the model.
\<close>

subsection \<open>Machine types and constants\<close>

text \<open>
  \<open>guint64\<close>, \<open>GstClockTime\<close> and \<open>ogg_int64_t\<close> are 64-bit words; addition and
  subtraction wrap, \<open>sint\<close> reads a word as the signed \<open>ogg_int64_t\<close>. The \<open>gint\<close>
  fields (bit rates, channel count, sample rate) are only compared, copied and converted,
  so they are integers, converted to a 64-bit word where the C code converts them.
  The \<open>gfloat\<close> quality is only stored, compared with \<open>0.0\<close> and handed to the backend;
  it is the real number the \<open>gfloat\<close> denotes. A \<open>gfloat\<close> sample is only copied and is
  kept as its 32 bits.
\<close>

type_synonym guint64 = "64 word"
type_synonym GstClockTime = "64 word"
type_synonym ogg_int64_t = "64 word"
type_synonym gfloat_sample = "32 word"

definition GST_SECOND :: "64 word" where
  "GST_SECOND = 1000000000"

definition G_MAXUINT64 :: "64 word" where
  "G_MAXUINT64 = - 1"

definition GST_CLOCK_TIME_NONE :: "64 word" where
  "GST_CLOCK_TIME_NONE = - 1"

definition LOWEST_BITRATE :: int where
  "LOWEST_BITRATE = 6000"

text \<open>
  The macro \<open>QUALITY_DEFAULT\<close> is \<open>0.3\<close>; the value kept in the \<open>gfloat\<close> field \<open>quality\<close>
  is the single-precision number nearest to it, \<open>5033165 / 2^24\<close>.
\<close>

definition QUALITY_DEFAULT :: real where
  "QUALITY_DEFAULT = 5033165 / 16777216"

text \<open>
  \<open>gst_util_uint64_scale\<close> belongs to the GStreamer core library, not to this element.
  Its contract: the value \<open>val * num / denom\<close>, computed without intermediate overflow and
  rounded down; \<open>G_MAXUINT64\<close> when the result does not fit 64 bits or \<open>denom\<close> is zero.
\<close>

definition gst_util_uint64_scale :: "64 word \<Rightarrow> 64 word \<Rightarrow> 64 word \<Rightarrow> 64 word" where
  "gst_util_uint64_scale val num denom =
     (if denom = 0 then G_MAXUINT64
      else if unat val * unat num div unat denom < 2 ^ 64
           then of_nat (unat val * unat num div unat denom)
           else G_MAXUINT64)"

subsection \<open>Data\<close>

datatype GstFlowReturn =
    GST_FLOW_RESEND
  | GST_FLOW_OK
  | GST_FLOW_NOT_LINKED
  | GST_FLOW_WRONG_STATE
  | GST_FLOW_UNEXPECTED
  | GST_FLOW_NOT_NEGOTIATED
  | GST_FLOW_ERROR
  | GST_FLOW_NOT_SUPPORTED

text \<open>
  The events of the sink pad: the end of the stream, and any event the element only
  sends on. Tag events, which the element merges into its tag list before sending them
  on, are outside this model, as the tag list is.
\<close>

datatype GstEventType = GST_EVENT_EOS | GST_EVENT_OTHER

text \<open>An element error message: its domain and its code.\<close>

datatype error_domain = CORE | LIBRARY | RESOURCE | STREAM
datatype error_code = NEGOTIATION | FAILED | ENCODE

text \<open>A packet of the backend: its bytes and its granule position (\<open>ogg_int64_t\<close>).\<close>

record ogg_packet =
  packet :: "8 word list"
  granulepos :: ogg_int64_t

text \<open>An output buffer with the fields the element writes.\<close>

record GstBuffer =
  GST_BUFFER_DATA :: "8 word list"
  GST_BUFFER_OFFSET :: guint64
  GST_BUFFER_OFFSET_END :: guint64
  GST_BUFFER_TIMESTAMP :: GstClockTime
  GST_BUFFER_DURATION :: GstClockTime
  GST_BUFFER_FLAG_IN_CAPS :: bool

definition GST_BUFFER_SIZE :: "GstBuffer \<Rightarrow> nat" where
  "GST_BUFFER_SIZE buf = length (GST_BUFFER_DATA buf)"

text \<open>
  An input buffer of interleaved float samples. Its byte size is four times the number
  of whole samples it holds; a trailing partial sample cannot change the quotient
  \<open>size / (channels * 4)\<close> and is left out.
\<close>

record raw_buffer =
  raw_data :: "gfloat_sample list"
  raw_timestamp :: GstClockTime

definition raw_size :: "raw_buffer \<Rightarrow> nat" where
  "raw_size buffer = 4 * length (raw_data buffer)"

text \<open>The status message, with the fields that \<open>g_strdup_printf\<close> formats.\<close>

datatype constraints =
    Min_max int int
  | Min_no_max int
  | No_min_max int
  | No_min_or_max

datatype start_message =
    Average_bitrate int constraints
  | Approximate_bitrate int
  | Quality_constrained_vbr real constraints
  | Quality_level real
  | Bitrate_management constraints

text \<open>The instance structure. The field \<open>setup\<close> of the C structure is \<open>setup_flag\<close>.\<close>

record GstVorbisEnc =
  managed :: bool
  bitrate :: int
  min_bitrate :: int
  max_bitrate :: int
  quality :: real
  quality_set :: bool
  channels :: int
  frequency :: int
  samples_in :: guint64
  bytes_out :: guint64
  next_ts :: GstClockTime
  granulepos_offset :: guint64
  subgranule_offset :: guint64
  setup_flag :: bool
  header_sent :: bool
  last_message :: "start_message option"

text \<open>What the element asks of the backend, in the order of the calls.\<close>

datatype backend_call =
    Vorbis_encode_setup_vbr int int real
  | Vorbis_encode_setup_managed int int int int int
  | Ratemanage_set_hard int int
  | Ratemanage_avg
  | Ratemanage_off
  | Vorbis_encode_setup_init
  | Vorbis_analysis_init
  | Vorbis_info_clear
  | Vorbis_analysis_headerout
  | Vorbis_analysis_wrote "32 word list list" nat
  | Vorbis_analysis_block
  | Vorbis_state_clear

text \<open>
  Everything outside the instance structure: the buffers given to \<open>gst_pad_push\<close> on the
  source pad (oldest first), the answer of the downstream peer to the n-th push, the
  stream header set on the source pad's caps, the calls made to the backend, the error
  messages posted, the property notifications raised, the input buffers released and the
  events sent downstream.
\<close>

record world =
  pushed :: "GstBuffer list"
  peer :: "nat \<Rightarrow> GstFlowReturn"
  streamheader :: "GstBuffer list option"
  backend :: "backend_call list"
  posted :: "(error_domain \<times> error_code) list"
  notified :: "string list"
  unreffed :: "raw_buffer list"
  sent_events :: "GstEventType list"

definition call_backend :: "backend_call \<Rightarrow> world \<Rightarrow> world" where
  "call_backend c w = w\<lparr>backend := backend w @ [c]\<rparr>"

definition g_object_notify :: "string \<Rightarrow> world \<Rightarrow> world" where
  "g_object_notify name w = w\<lparr>notified := notified w @ [name]\<rparr>"

text \<open>
  What the backend answers during one call of the chain function or one end-of-stream
  flush: the three header packets of \<open>vorbis_analysis_headerout\<close>, and for each block
  that \<open>vorbis_analysis_blockout\<close> yields the packets that \<open>vorbis_bitrate_flushpacket\<close>
  yields for it.
\<close>

record backend_reply =
  header :: ogg_packet
  header_comm :: ogg_packet
  header_code :: ogg_packet
  blocks :: "ogg_packet list list"

subsection \<open>Granule position to time\<close>

definition granulepos_to_timestamp_offset :: "GstVorbisEnc \<Rightarrow> 64 word \<Rightarrow> 64 word" where
  "granulepos_to_timestamp_offset vorbisenc gp =
     (if 0 \<le> sint gp
      then gst_util_uint64_scale (gp + granulepos_offset vorbisenc) GST_SECOND
             (word_of_int (frequency vorbisenc))
           + subgranule_offset vorbisenc
      else GST_CLOCK_TIME_NONE)"

definition granulepos_to_timestamp :: "GstVorbisEnc \<Rightarrow> 64 word \<Rightarrow> 64 word" where
  "granulepos_to_timestamp vorbisenc gp =
     (if 0 \<le> sint gp
      then gst_util_uint64_scale gp GST_SECOND (word_of_int (frequency vorbisenc))
      else GST_CLOCK_TIME_NONE)"

subsection \<open>Properties\<close>

definition gst_vorbisenc_init :: GstVorbisEnc where
  "gst_vorbisenc_init =
     \<lparr>managed = False, bitrate = - 1, min_bitrate = - 1, max_bitrate = - 1,
      quality = QUALITY_DEFAULT, quality_set = False, channels = - 1, frequency = - 1,
      samples_in = 0, bytes_out = 0, next_ts = 0, granulepos_offset = 0,
      subgranule_offset = 0, setup_flag = False, header_sent = False,
      last_message = None\<rparr>"

datatype property =
    ARG_MAX_BITRATE int
  | ARG_BITRATE int
  | ARG_MIN_BITRATE int
  | ARG_QUALITY real
  | ARG_MANAGED bool
  | ARG_LAST_MESSAGE

definition clamp_lowest :: "int \<Rightarrow> int" where
  "clamp_lowest v = (if 0 \<le> v \<and> v < LOWEST_BITRATE then LOWEST_BITRATE else v)"

definition update_managed :: "bool \<Rightarrow> GstVorbisEnc \<times> world \<Rightarrow> GstVorbisEnc \<times> world" where
  "update_managed old_value s =
     (case s of (vorbisenc, w) \<Rightarrow>
        (let enc1 = vorbisenc\<lparr>managed :=
                      (0 < min_bitrate vorbisenc \<and> 0 < max_bitrate vorbisenc)\<rparr>
         in (enc1, if old_value \<noteq> managed enc1 then g_object_notify ''managed'' w else w)))"

fun gst_vorbisenc_set_property ::
  "property \<Rightarrow> GstVorbisEnc \<times> world \<Rightarrow> GstVorbisEnc \<times> world" where
  "gst_vorbisenc_set_property (ARG_MAX_BITRATE v) (vorbisenc, w) =
     update_managed (managed vorbisenc) (vorbisenc\<lparr>max_bitrate := clamp_lowest v\<rparr>, w)"
| "gst_vorbisenc_set_property (ARG_BITRATE v) (vorbisenc, w) =
     (vorbisenc\<lparr>bitrate := clamp_lowest v\<rparr>, w)"
| "gst_vorbisenc_set_property (ARG_MIN_BITRATE v) (vorbisenc, w) =
     update_managed (managed vorbisenc) (vorbisenc\<lparr>min_bitrate := clamp_lowest v\<rparr>, w)"
| "gst_vorbisenc_set_property (ARG_QUALITY v) (vorbisenc, w) =
     (vorbisenc\<lparr>quality := v, quality_set := (0 \<le> v)\<rparr>, w)"
| "gst_vorbisenc_set_property (ARG_MANAGED v) (vorbisenc, w) =
     (vorbisenc\<lparr>managed := v\<rparr>, w)"
| "gst_vorbisenc_set_property ARG_LAST_MESSAGE (vorbisenc, w) = (vorbisenc, w)"

subsection \<open>Set-up\<close>

definition get_constraints_string :: "GstVorbisEnc \<Rightarrow> constraints" where
  "get_constraints_string vorbisenc =
     (let mn = min_bitrate vorbisenc; mx = max_bitrate vorbisenc
      in if 0 < mn \<and> 0 < mx then Min_max mn mx
         else if 0 < mn then Min_no_max mn
         else if 0 < mx then No_min_max mx
         else No_min_or_max)"

definition update_start_message :: "GstVorbisEnc \<times> world \<Rightarrow> GstVorbisEnc \<times> world" where
  "update_start_message s =
     (case s of (vorbisenc, w) \<Rightarrow>
        (vorbisenc\<lparr>last_message := Some
           (if 0 < bitrate vorbisenc then
              (if managed vorbisenc
               then Average_bitrate (bitrate vorbisenc) (get_constraints_string vorbisenc)
               else Approximate_bitrate (bitrate vorbisenc))
            else if quality_set vorbisenc then
              (if managed vorbisenc
               then Quality_constrained_vbr (quality vorbisenc)
                      (get_constraints_string vorbisenc)
               else Quality_level (quality vorbisenc))
            else Bitrate_management (get_constraints_string vorbisenc))\<rparr>,
         g_object_notify ''last_message'' w))"

text \<open>
  The part of the set-up after the mode has been accepted by the backend: the
  rate-management switch, the initialisation of the analysis state, the reset of
  \<open>next_ts\<close> and the \<open>setup\<close> flag.
\<close>

definition setup_finish :: "GstVorbisEnc \<times> world \<Rightarrow> bool \<times> GstVorbisEnc \<times> world" where
  "setup_finish s =
     (case s of (vorbisenc, w) \<Rightarrow>
        (let w1 = (if managed vorbisenc \<and> bitrate vorbisenc < 0
                   then call_backend Ratemanage_avg w
                   else if \<not> managed vorbisenc then call_backend Ratemanage_off w
                   else w);
             w2 = call_backend Vorbis_analysis_init (call_backend Vorbis_encode_setup_init w1)
         in (True, vorbisenc\<lparr>next_ts := 0, setup_flag := True\<rparr>, w2)))"

text \<open>
  \<open>accept\<close> is the answer of the backend to the set-up call the element makes
  (\<open>vorbis_encode_setup_vbr\<close> or \<open>vorbis_encode_setup_managed\<close> returning 0).
\<close>

definition gst_vorbisenc_setup ::
  "bool \<Rightarrow> GstVorbisEnc \<times> world \<Rightarrow> bool \<times> GstVorbisEnc \<times> world" where
  "gst_vorbisenc_setup accept s =
     (case s of (vorbisenc, w) \<Rightarrow>
        (let enc1 = vorbisenc\<lparr>setup_flag := False\<rparr>;
             enc2 = (if bitrate enc1 < 0 \<and> min_bitrate enc1 < 0 \<and> max_bitrate enc1 < 0
                     then enc1\<lparr>quality_set := True\<rparr> else enc1)
         in case update_start_message (enc2, w) of (enc3, w3) \<Rightarrow>
            if quality_set enc3 then
              (let w4 = call_backend
                          (Vorbis_encode_setup_vbr (channels enc3) (frequency enc3)
                             (quality enc3)) w3
               in if \<not> accept then (False, enc3, call_backend Vorbis_info_clear w4)
                  else setup_finish
                         (enc3,
                          if 0 < max_bitrate enc3 \<or> 0 < min_bitrate enc3
                          then call_backend
                                 (Ratemanage_set_hard (min_bitrate enc3) (max_bitrate enc3)) w4
                          else w4))
            else
              (let mn = (if 0 < min_bitrate enc3 then min_bitrate enc3 else - 1);
                   mx = (if 0 < max_bitrate enc3 then max_bitrate enc3 else - 1);
                   w4 = call_backend
                          (Vorbis_encode_setup_managed (channels enc3) (frequency enc3)
                             mx (bitrate enc3) mn) w3
               in if \<not> accept then (False, enc3, call_backend Vorbis_info_clear w4)
                  else setup_finish (enc3, w4))))"

definition gst_vorbisenc_sink_setcaps ::
  "bool \<Rightarrow> int \<Rightarrow> int \<Rightarrow> GstVorbisEnc \<times> world \<Rightarrow> bool \<times> GstVorbisEnc \<times> world" where
  "gst_vorbisenc_sink_setcaps accept caps_channels caps_rate s =
     (case s of (vorbisenc, w) \<Rightarrow>
        (case gst_vorbisenc_setup accept
                (vorbisenc\<lparr>setup_flag := False, channels := caps_channels,
                            frequency := caps_rate\<rparr>, w)
         of (res, enc1, w1) \<Rightarrow> (setup_flag enc1, enc1, w1)))"

subsection \<open>Output buffers\<close>

text \<open>
  \<open>gst_vorbisenc_buffer_from_packet\<close> builds the buffer of a data packet and moves
  \<open>next_ts\<close>. \<open>GST_BUFFER_OFFSET_END\<close> is passed to \<open>granulepos_to_timestamp\<close> as an
  \<open>ogg_int64_t\<close>.
\<close>

definition gst_vorbisenc_buffer_from_packet ::
  "GstVorbisEnc \<Rightarrow> ogg_packet \<Rightarrow> GstBuffer \<times> GstVorbisEnc" where
  "gst_vorbisenc_buffer_from_packet vorbisenc pkt =
     (let offset_end = granulepos pkt + granulepos_offset vorbisenc;
          ts = next_ts vorbisenc;
          enc1 = vorbisenc\<lparr>next_ts :=
                   granulepos_to_timestamp_offset vorbisenc (granulepos pkt)\<rparr>
      in (\<lparr>GST_BUFFER_DATA = packet pkt,
           GST_BUFFER_OFFSET = granulepos_to_timestamp vorbisenc offset_end,
           GST_BUFFER_OFFSET_END = offset_end,
           GST_BUFFER_TIMESTAMP = ts,
           GST_BUFFER_DURATION = next_ts enc1 - ts,
           GST_BUFFER_FLAG_IN_CAPS = False\<rparr>, enc1))"

definition gst_vorbisenc_buffer_from_header_packet ::
  "GstVorbisEnc \<Rightarrow> ogg_packet \<Rightarrow> GstBuffer" where
  "gst_vorbisenc_buffer_from_header_packet vorbisenc pkt =
     \<lparr>GST_BUFFER_DATA = packet pkt,
      GST_BUFFER_OFFSET = bytes_out vorbisenc,
      GST_BUFFER_OFFSET_END = 0,
      GST_BUFFER_TIMESTAMP = GST_CLOCK_TIME_NONE,
      GST_BUFFER_DURATION = GST_CLOCK_TIME_NONE,
      GST_BUFFER_FLAG_IN_CAPS = False\<rparr>"

text \<open>
  \<open>gst_vorbisenc_push_buffer\<close>: the byte counter moves, the buffer goes to the peer, and
  the peer's answer is the result.
\<close>

definition gst_vorbisenc_push_buffer ::
  "GstBuffer \<Rightarrow> GstVorbisEnc \<times> world \<Rightarrow> GstFlowReturn \<times> GstVorbisEnc \<times> world" where
  "gst_vorbisenc_push_buffer buffer s =
     (case s of (vorbisenc, w) \<Rightarrow>
        (peer w (length (pushed w)),
         vorbisenc\<lparr>bytes_out := bytes_out vorbisenc + of_nat (GST_BUFFER_SIZE buffer)\<rparr>,
         w\<lparr>pushed := pushed w @ [buffer]\<rparr>))"

definition gst_vorbisenc_push_packet ::
  "ogg_packet \<Rightarrow> GstVorbisEnc \<times> world \<Rightarrow> GstFlowReturn \<times> GstVorbisEnc \<times> world" where
  "gst_vorbisenc_push_packet pkt s =
     (case s of (vorbisenc, w) \<Rightarrow>
        (case gst_vorbisenc_buffer_from_packet vorbisenc pkt of
           (outbuf, enc1) \<Rightarrow> gst_vorbisenc_push_buffer outbuf (enc1, w)))"

text \<open>
  The inner loop of \<open>gst_vorbisenc_output_buffers\<close> over the packets of one block:
  \<open>Some ret\<close> when a push failed and the function returns \<open>ret\<close>, \<open>None\<close> when the
  backend has no more packets for the block.
\<close>

fun flush_packets ::
  "ogg_packet list \<Rightarrow> GstVorbisEnc \<times> world \<Rightarrow> GstFlowReturn option \<times> GstVorbisEnc \<times> world" where
  "flush_packets [] s = (None, s)"
| "flush_packets (pkt # pkts) s =
     (case gst_vorbisenc_push_packet pkt s of
        (ret, s1) \<Rightarrow> if ret \<noteq> GST_FLOW_OK then (Some ret, s1) else flush_packets pkts s1)"

fun gst_vorbisenc_output_buffers ::
  "ogg_packet list list \<Rightarrow> GstVorbisEnc \<times> world \<Rightarrow> GstFlowReturn \<times> GstVorbisEnc \<times> world" where
  "gst_vorbisenc_output_buffers [] s = (GST_FLOW_OK, s)"
| "gst_vorbisenc_output_buffers (blk # blks) s =
     (case flush_packets blk (fst s, call_backend Vorbis_analysis_block (snd s)) of
        (Some ret, s1) \<Rightarrow> (ret, s1)
      | (None, s1) \<Rightarrow> gst_vorbisenc_output_buffers blks s1)"

subsection \<open>End of stream\<close>

definition gst_vorbisenc_clear ::
  "backend_reply \<Rightarrow> GstVorbisEnc \<times> world \<Rightarrow> GstFlowReturn \<times> GstVorbisEnc \<times> world" where
  "gst_vorbisenc_clear reply s =
     (case (if setup_flag (fst s)
            then (case gst_vorbisenc_output_buffers (blocks reply)
                         (fst s, call_backend (Vorbis_analysis_wrote [] 0) (snd s))
                  of (ret, enc1, w1) \<Rightarrow> (ret, enc1\<lparr>setup_flag := False\<rparr>, w1))
            else (GST_FLOW_OK, s))
      of (ret, enc2, w2) \<Rightarrow>
        (ret, enc2\<lparr>header_sent := False\<rparr>, call_backend Vorbis_state_clear w2))"

text \<open>
  \<open>res\<close> is the answer of \<open>gst_pad_push_event\<close>. The result of \<open>gst_vorbisenc_clear\<close> is
  not used by the event function.
\<close>

definition gst_vorbisenc_sink_event ::
  "backend_reply \<Rightarrow> bool \<Rightarrow> GstEventType \<Rightarrow> GstVorbisEnc \<times> world \<Rightarrow> bool \<times> GstVorbisEnc \<times> world" where
  "gst_vorbisenc_sink_event reply res event s =
     (case event of
        GST_EVENT_EOS \<Rightarrow>
          (case gst_vorbisenc_clear reply s of
             (ret, enc1, w1) \<Rightarrow> (res, enc1, w1\<lparr>sent_events := sent_events w1 @ [event]\<rparr>))
      | GST_EVENT_OTHER \<Rightarrow>
          (res, fst s, (snd s)\<lparr>sent_events := sent_events (snd s) @ [event]\<rparr>))"

subsection \<open>The chain function\<close>

text \<open>
  The last step of the header handshake: the granule clock is moved to the time stamp of
  the first data buffer.
\<close>

definition adjust_granulepos :: "raw_buffer \<Rightarrow> GstVorbisEnc \<Rightarrow> GstVorbisEnc" where
  "adjust_granulepos buffer vorbisenc =
     (let enc1 = vorbisenc\<lparr>next_ts := raw_timestamp buffer\<rparr>;
          enc2 = enc1\<lparr>granulepos_offset :=
                   gst_util_uint64_scale (raw_timestamp buffer)
                     (word_of_int (frequency enc1)) GST_SECOND\<rparr>;
          enc3 = enc2\<lparr>subgranule_offset := 0\<rparr>
      in enc3\<lparr>subgranule_offset := next_ts enc3 - granulepos_to_timestamp_offset enc3 0\<rparr>)"

text \<open>
  The header handshake: a result other than \<open>GST_FLOW_OK\<close> is the jump to
  \<open>failed_header_push\<close>.
\<close>

definition header_handshake ::
  "backend_reply \<Rightarrow> raw_buffer \<Rightarrow> GstVorbisEnc \<times> world \<Rightarrow>
   GstFlowReturn \<times> GstVorbisEnc \<times> world" where
  "header_handshake reply buffer s =
     (let enc1 = (fst s)\<lparr>next_ts := 0, granulepos_offset := 0, subgranule_offset := 0\<rparr>;
          w1 = call_backend Vorbis_analysis_headerout (snd s);
          buf1 = (gst_vorbisenc_buffer_from_header_packet enc1 (header reply))
                   \<lparr>GST_BUFFER_FLAG_IN_CAPS := True\<rparr>;
          buf2 = (gst_vorbisenc_buffer_from_header_packet enc1 (header_comm reply))
                   \<lparr>GST_BUFFER_FLAG_IN_CAPS := True\<rparr>;
          buf3 = (gst_vorbisenc_buffer_from_header_packet enc1 (header_code reply))
                   \<lparr>GST_BUFFER_FLAG_IN_CAPS := True\<rparr>;
          w2 = w1\<lparr>streamheader := Some [buf1, buf2, buf3]\<rparr>
      in case gst_vorbisenc_push_buffer buf1 (enc1, w2) of (ret1, s1) \<Rightarrow>
         if ret1 \<noteq> GST_FLOW_OK then (ret1, s1)
         else case gst_vorbisenc_push_buffer buf2 s1 of (ret2, s2) \<Rightarrow>
         if ret2 \<noteq> GST_FLOW_OK then (ret2, s2)
         else case gst_vorbisenc_push_buffer buf3 s2 of (ret3, enc3, w3) \<Rightarrow>
         if ret3 \<noteq> GST_FLOW_OK then (ret3, enc3, w3)
         else (GST_FLOW_OK, (adjust_granulepos buffer enc3)\<lparr>header_sent := True\<rparr>, w3))"

text \<open>
  The inner loop of the deinterleaving, over the channels \<open>j\<close> of frame \<open>i\<close>: \<open>p\<close> is the
  position of the read pointer \<open>data\<close>.
\<close>

function deinterleave_frame ::
  "nat \<Rightarrow> nat \<Rightarrow> nat \<Rightarrow> 32 word list \<Rightarrow> 32 word list list \<times> nat \<Rightarrow> 32 word list list \<times> nat" where
  "deinterleave_frame nch i j data s =
     (if j < nch
      then deinterleave_frame nch i (Suc j) data
             ((fst s)[j := ((fst s) ! j)[i := data ! snd s]], Suc (snd s))
      else s)"
  by pat_completeness auto
termination
  by (relation "measure (\<lambda>(nch, i, j, data, s). nch - j)") auto

declare deinterleave_frame.simps [simp del]

text \<open>The outer loop, over the frames \<open>i\<close>.\<close>

function deinterleave ::
  "nat \<Rightarrow> nat \<Rightarrow> nat \<Rightarrow> 32 word list \<Rightarrow> 32 word list list \<times> nat \<Rightarrow> 32 word list list \<times> nat" where
  "deinterleave frames nch i data s =
     (if i < frames
      then deinterleave frames nch (Suc i) data (deinterleave_frame nch i 0 data s)
      else s)"
  by pat_completeness auto
termination
  by (relation "measure (\<lambda>(frames, nch, i, data, s). frames - i)") auto

declare deinterleave.simps [simp del]

text \<open>
  The ingestion step. \<open>channels * sizeof (float)\<close> is computed in \<open>size_t\<close>; a zero divisor
  is undefined behaviour in C and is \<open>None\<close> here. The block \<open>vorbis_analysis_buffer\<close>
  hands out has one row for each channel and room for \<open>size\<close> samples in each
  (the local \<open>size\<close> of the C function is \<open>frames\<close>).
\<close>

definition submit_samples ::
  "raw_buffer \<Rightarrow> GstVorbisEnc \<times> world \<Rightarrow> (GstVorbisEnc \<times> world) option" where
  "submit_samples buffer s =
     (let nch = (word_of_int (channels (fst s)) :: 64 word);
          divisor = nch * 4
      in if divisor = 0 then None
         else
           (let frames = unat ((of_nat (raw_size buffer) :: 64 word) div divisor);
                vorbis_buffer =
                  fst (deinterleave frames (unat nch) 0 (raw_data buffer)
                         (replicate (unat nch) (replicate frames 0), 0))
            in Some ((fst s)\<lparr>samples_in := samples_in (fst s) + of_nat frames\<rparr>,
                     (call_backend (Vorbis_analysis_wrote vorbis_buffer frames) (snd s))
                       \<lparr>unreffed := unreffed (snd s) @ [buffer]\<rparr>)))"

definition gst_vorbisenc_chain ::
  "backend_reply \<Rightarrow> raw_buffer \<Rightarrow> GstVorbisEnc \<times> world \<Rightarrow>
   (GstFlowReturn \<times> GstVorbisEnc \<times> world) option" where
  "gst_vorbisenc_chain reply buffer s =
     (if \<not> setup_flag (fst s)
      then Some (GST_FLOW_UNEXPECTED, fst s,
                 (snd s)\<lparr>unreffed := unreffed (snd s) @ [buffer],
                          posted := posted (snd s) @ [(CORE, NEGOTIATION)]\<rparr>)
      else
        (case (if \<not> header_sent (fst s) then header_handshake reply buffer s
               else (GST_FLOW_OK, s))
         of (ret, enc1, w1) \<Rightarrow>
           if ret \<noteq> GST_FLOW_OK
           then Some (ret, enc1, w1\<lparr>unreffed := unreffed w1 @ [buffer]\<rparr>)
           else (case submit_samples buffer (enc1, w1) of
                   None \<Rightarrow> None
                 | Some s2 \<Rightarrow> Some (gst_vorbisenc_output_buffers (blocks reply) s2))))"

text \<open>
  A run of the chain function over the buffers of a session, each with the answers of
  the backend during that call. The host may stop after any call; a shorter list is
  that run.
\<close>

fun chain_all ::
  "(backend_reply \<times> raw_buffer) list \<Rightarrow> GstVorbisEnc \<times> world \<Rightarrow> (GstVorbisEnc \<times> world) option" where
  "chain_all [] s = Some s"
| "chain_all (rb # rbs) s =
     (case gst_vorbisenc_chain (fst rb) (snd rb) s of
        None \<Rightarrow> None
      | Some (ret, s1) \<Rightarrow> chain_all rbs s1)"

section \<open>Notions used in the statements\<close>

subsection \<open>The spec's formulas\<close>

text \<open>
  The two conversions as the spec writes them, over the natural numbers (no 64-bit
  bound): \<open>granule_position * time_unit / sample_rate\<close> and
  \<open>(granule_position + granule_offset) * time_unit / sample_rate + subgranule_offset\<close>.
\<close>

definition spec_direct_time :: "GstVorbisEnc \<Rightarrow> 64 word \<Rightarrow> nat" where
  "spec_direct_time vorbisenc gp = unat gp * 1000000000 div nat (frequency vorbisenc)"


text \<open>
  The spec's deinterleaved block: for each channel \<open>j\<close> the samples of that channel in
  frame order, sample \<open>i\<close> of channel \<open>j\<close> being input element \<open>i * C + j\<close>.
\<close>

definition spec_deinterleave :: "nat \<Rightarrow> nat \<Rightarrow> 32 word list \<Rightarrow> 32 word list list" where
  "spec_deinterleave nch frames data =
     map (\<lambda>j. map (\<lambda>i. data ! (i * nch + j)) [0..<frames]) [0..<nch]"

text \<open>The three header units the handshake builds from the backend's header packets.\<close>

definition header_units :: "GstVorbisEnc \<Rightarrow> backend_reply \<Rightarrow> GstBuffer list" where
  "header_units vorbisenc reply =
     map (\<lambda>pkt. \<lparr>GST_BUFFER_DATA = packet pkt,
                  GST_BUFFER_OFFSET = bytes_out vorbisenc,
                  GST_BUFFER_OFFSET_END = 0,
                  GST_BUFFER_TIMESTAMP = GST_CLOCK_TIME_NONE,
                  GST_BUFFER_DURATION = GST_CLOCK_TIME_NONE,
                  GST_BUFFER_FLAG_IN_CAPS = True\<rparr>)
       [header reply, header_comm reply, header_code reply]"

text \<open>The spec's frame count: the byte length over \<open>channels * 4\<close>.\<close>

definition spec_frames :: "GstVorbisEnc \<Rightarrow> raw_buffer \<Rightarrow> nat" where
  "spec_frames vorbisenc buffer = raw_size buffer div (nat (channels vorbisenc) * 4)"

text \<open>
  The state after the ingestion step as the spec describes it: the deinterleaved block
  is submitted in one call with the frame count, \<open>samples_in\<close> has advanced by the frame
  count, and the input buffer is released.
\<close>

definition spec_ingested ::
  "raw_buffer \<Rightarrow> GstVorbisEnc \<times> world \<Rightarrow> GstVorbisEnc \<times> world" where
  "spec_ingested buffer s =
     ((fst s)\<lparr>samples_in := samples_in (fst s) + of_nat (spec_frames (fst s) buffer)\<rparr>,
      (call_backend
         (Vorbis_analysis_wrote
            (spec_deinterleave (nat (channels (fst s))) (spec_frames (fst s) buffer)
               (raw_data buffer))
            (spec_frames (fst s) buffer)) (snd s))
        \<lparr>unreffed := unreffed (snd s) @ [buffer]\<rparr>)"

text \<open>
  The state after a header handshake whose three pushes the peer accepted: the header
  units are on the output and in the stream header, the backend has been asked for the
  headers, the byte counter has moved past them, and the granule clock starts at the
  time stamp of the buffer.
\<close>

definition handshake_done ::
  "backend_reply \<Rightarrow> raw_buffer \<Rightarrow> GstVorbisEnc \<times> world \<Rightarrow> GstVorbisEnc \<times> world" where
  "handshake_done reply buffer s =
     ((adjust_granulepos buffer
         ((fst s)\<lparr>next_ts := 0, granulepos_offset := 0, subgranule_offset := 0,
              bytes_out := bytes_out (fst s) + of_nat (length (packet (header reply)))
                           + of_nat (length (packet (header_comm reply)))
                           + of_nat (length (packet (header_code reply)))\<rparr>))
        \<lparr>header_sent := True\<rparr>,
      (snd s)\<lparr>backend := backend (snd s) @ [Vorbis_analysis_headerout],
         streamheader := Some (header_units (fst s) reply),
         pushed := pushed (snd s) @ header_units (fst s) reply\<rparr>)"

text \<open>The peer accepts the next three pushes.\<close>

definition accepts_headers :: "world \<Rightarrow> bool" where
  "accepts_headers w \<longleftrightarrow>
     peer w (length (pushed w)) = GST_FLOW_OK \<and>
     peer w (Suc (length (pushed w))) = GST_FLOW_OK \<and>
     peer w (Suc (Suc (length (pushed w)))) = GST_FLOW_OK"

subsection \<open>Reading the traces\<close>

text \<open>The encoding mode a set-up call of the backend stands for.\<close>

datatype mode = QualityVBR | ManagedBitrate

fun call_mode :: "backend_call \<Rightarrow> mode option" where
  "call_mode (Vorbis_encode_setup_vbr c r q) = Some QualityVBR"
| "call_mode (Vorbis_encode_setup_managed c r mx b mn) = Some ManagedBitrate"
| "call_mode _ = None"

text \<open>The calls \<open>gst_vorbisenc_setup\<close> makes to the backend, and the modes among them.\<close>

definition setup_calls :: "bool \<Rightarrow> GstVorbisEnc \<times> world \<Rightarrow> backend_call list" where
  "setup_calls accept s =
     drop (length (backend (snd s))) (backend (snd (snd (gst_vorbisenc_setup accept s))))"

definition setup_mode :: "bool \<Rightarrow> GstVorbisEnc \<times> world \<Rightarrow> mode list" where
  "setup_mode accept s = List.map_filter call_mode (setup_calls accept s)"

text \<open>The blocks submitted with \<open>vorbis_analysis_wrote\<close> among a list of calls.\<close>

fun wrote_call :: "backend_call \<Rightarrow> (32 word list list \<times> nat) option" where
  "wrote_call (Vorbis_analysis_wrote vb n) = Some (vb, n)"
| "wrote_call _ = None"

definition wrote_calls :: "backend_call list \<Rightarrow> (32 word list list \<times> nat) list" where
  "wrote_calls cs = List.map_filter wrote_call cs"

definition headerout_calls :: "backend_call list \<Rightarrow> nat" where
  "headerout_calls cs = length (filter (\<lambda>c. c = Vorbis_analysis_headerout) cs)"

text \<open>
  What a step added to the output of the source pad and to the calls of the backend,
  between the world before and the world after.
\<close>

definition new_output :: "world \<Rightarrow> world \<Rightarrow> GstBuffer list" where
  "new_output w w' = drop (length (pushed w)) (pushed w')"

definition new_calls :: "world \<Rightarrow> world \<Rightarrow> backend_call list" where
  "new_calls w w' = drop (length (backend w)) (backend w')"

text \<open>
  Header units carry the in-caps flag, data units do not: the data units of an output.
\<close>

definition data_units :: "GstBuffer list \<Rightarrow> GstBuffer list" where
  "data_units bs = filter (\<lambda>b. \<not> GST_BUFFER_FLAG_IN_CAPS b) bs"


subsection \<open>Concrete sessions\<close>

definition quiet_world :: "(nat \<Rightarrow> GstFlowReturn) \<Rightarrow> world" where
  "quiet_world p =
     \<lparr>pushed = [], peer = p, streamheader = None, backend = [], posted = [],
      notified = [], unreffed = [], sent_events = []\<rparr>"

definition accepting :: "nat \<Rightarrow> GstFlowReturn" where
  "accepting n = GST_FLOW_OK"

definition refusing_first :: "nat \<Rightarrow> GstFlowReturn" where
  "refusing_first n = (if n = 0 then GST_FLOW_WRONG_STATE else GST_FLOW_OK)"

text \<open>A stereo session at 44100 Hz, set up through the caps of the sink pad.\<close>

definition stereo_session :: "(nat \<Rightarrow> GstFlowReturn) \<Rightarrow> GstVorbisEnc \<times> world" where
  "stereo_session p =
     snd (gst_vorbisenc_sink_setcaps True 2 44100 (gst_vorbisenc_init, quiet_world p))"

definition three_headers :: "ogg_packet list list \<Rightarrow> backend_reply" where
  "three_headers blks =
     \<lparr>header = \<lparr>packet = [1], granulepos = 0\<rparr>,
      header_comm = \<lparr>packet = [3], granulepos = 0\<rparr>,
      header_code = \<lparr>packet = [5], granulepos = 0\<rparr>,
      blocks = blks\<rparr>"

definition four_samples :: "64 word \<Rightarrow> raw_buffer" where
  "four_samples ts = \<lparr>raw_data = [10, 20, 11, 21], raw_timestamp = ts\<rparr>"

subsection \<open>What the drain loop may change\<close>

text \<open>
  Between two states the instance structure differs at most in \<open>next_ts\<close> and
  \<open>bytes_out\<close>, the world at most in the output and the backend calls; the output has
  grown by data units only and the backend calls by block analyses only.
\<close>

definition drained :: "GstVorbisEnc \<times> world \<Rightarrow> GstVorbisEnc \<times> world \<Rightarrow> bool" where
  "drained s t \<longleftrightarrow>
     fst t = (fst s)\<lparr>next_ts := next_ts (fst t), bytes_out := bytes_out (fst t)\<rparr> \<and>
     snd t = (snd s)\<lparr>pushed := pushed (snd t), backend := backend (snd t)\<rparr> \<and>
     (\<exists>us. pushed (snd t) = pushed (snd s) @ us \<and>
           list_all (\<lambda>b. \<not> GST_BUFFER_FLAG_IN_CAPS b) us) \<and>
     (\<exists>cs. backend (snd t) = backend (snd s) @ cs \<and>
           list_all (\<lambda>c. c = Vorbis_analysis_block) cs)"

subsection \<open>What the chain function may change once the headers are sent\<close>

text \<open>
  Between two states the instance structure differs at most in \<open>next_ts\<close>, \<open>bytes_out\<close>
  and \<open>samples_in\<close>, the world at most in the output, the backend calls and the released
  buffers; the output has grown by data units only, and the backend has not been asked
  for the headers.
\<close>

definition streamed :: "GstVorbisEnc \<times> world \<Rightarrow> GstVorbisEnc \<times> world \<Rightarrow> bool" where
  "streamed s t \<longleftrightarrow>
     fst t = (fst s)\<lparr>next_ts := next_ts (fst t), bytes_out := bytes_out (fst t),
                     samples_in := samples_in (fst t)\<rparr> \<and>
     snd t = (snd s)\<lparr>pushed := pushed (snd t), backend := backend (snd t),
                     unreffed := unreffed (snd t)\<rparr> \<and>
     (\<exists>us. pushed (snd t) = pushed (snd s) @ us \<and>
           list_all (\<lambda>b. \<not> GST_BUFFER_FLAG_IN_CAPS b) us) \<and>
     (\<exists>cs. backend (snd t) = backend (snd s) @ cs \<and> headerout_calls cs = 0)"

subsection \<open>Time stamps of the data units\<close>








subsection \<open>Header units before data units\<close>

definition header_part :: "GstBuffer list \<Rightarrow> GstBuffer list" where
  "header_part bs = filter GST_BUFFER_FLAG_IN_CAPS bs"

text \<open>
  The state of a session that began in the world \<open>w0\<close>: its output so far is a run of
  header units followed by a run of data units; there is no data unit before the headers
  are sent, and once they are sent at least three header units are on the output.
\<close>

definition headers_before_data :: "world \<Rightarrow> GstVorbisEnc \<times> world \<Rightarrow> bool" where
  "headers_before_data w0 t \<longleftrightarrow>
     length (pushed w0) \<le> length (pushed (snd t)) \<and>
     new_output w0 (snd t) =
       header_part (new_output w0 (snd t)) @ data_units (new_output w0 (snd t)) \<and>
     (header_sent (fst t) \<or> data_units (new_output w0 (snd t)) = []) \<and>
     (\<not> header_sent (fst t) \<or> 3 \<le> length (header_part (new_output w0 (snd t))))"

subsection \<open>What the drain loop hands to the peer\<close>

text \<open>
  The packets handed to the peer out of the packets the backend yields: in order, up to
  and including the first one the peer refuses. \<open>p\<close> is the peer and \<open>n\<close> the number of
  buffers pushed before.
\<close>

fun handed :: "(nat \<Rightarrow> GstFlowReturn) \<Rightarrow> nat \<Rightarrow> ogg_packet list \<Rightarrow> ogg_packet list" where
  "handed p n [] = []"
| "handed p n (pkt # pkts) =
     pkt # (if p n = GST_FLOW_OK then handed p (Suc n) pkts else [])"



section \<open>Properties\<close>

subsection \<open>Words and scaling\<close>

lemma unat_frequency:
  "0 < f \<Longrightarrow> f < 2 ^ 31 \<Longrightarrow> unat (word_of_int f :: 64 word) = nat f"
  by (simp add: unat_eq_nat_uint uint_word_of_int take_bit_int_eq_self)

lemma frequency_nonzero:
  "0 < f \<Longrightarrow> f < 2 ^ 31 \<Longrightarrow> (word_of_int f :: 64 word) \<noteq> 0"
  using unat_frequency[of f] by (metis nat_0_iff not_le unat_0)

lemma scale_in_range:
  "denom \<noteq> 0 \<Longrightarrow> unat val * unat num div unat denom < 2 ^ 64 \<Longrightarrow>
   unat (gst_util_uint64_scale val num denom) = unat val * unat num div unat denom"
  by (simp add: gst_util_uint64_scale_def unat_of_nat)

lemma unat_GST_SECOND: "unat GST_SECOND = 1000000000"
  by (simp add: GST_SECOND_def)

lemma direct_in_range:
  assumes "0 \<le> sint gp" "0 < frequency enc" "frequency enc < 2 ^ 31"
    "spec_direct_time enc gp < 2 ^ 64"
  shows "unat (granulepos_to_timestamp enc gp) = spec_direct_time enc gp"
  using assms
  by (simp add: granulepos_to_timestamp_def scale_in_range frequency_nonzero unat_frequency
      unat_GST_SECOND spec_direct_time_def)

lemma negative_is_none:
  "sint gp < 0 \<Longrightarrow>
   granulepos_to_timestamp enc gp = GST_CLOCK_TIME_NONE \<and>
   granulepos_to_timestamp_offset enc gp = GST_CLOCK_TIME_NONE"
  by (simp add: granulepos_to_timestamp_def granulepos_to_timestamp_offset_def)

subsection \<open>Set-up\<close>

lemma hd_setup_calls:
  "hd (setup_calls accept (enc, w)) =
     (if quality_set enc \<or> (bitrate enc < 0 \<and> min_bitrate enc < 0 \<and> max_bitrate enc < 0)
      then Vorbis_encode_setup_vbr (channels enc) (frequency enc) (quality enc)
      else Vorbis_encode_setup_managed (channels enc) (frequency enc)
             (if 0 < max_bitrate enc then max_bitrate enc else - 1) (bitrate enc)
             (if 0 < min_bitrate enc then min_bitrate enc else - 1))"
  by (simp add: setup_calls_def gst_vorbisenc_setup_def update_start_message_def
      setup_finish_def call_backend_def g_object_notify_def Let_def)

lemma setup_mode_eq:
  "setup_mode accept (enc, w) =
     [if quality_set enc \<or> (bitrate enc < 0 \<and> min_bitrate enc < 0 \<and> max_bitrate enc < 0)
      then QualityVBR else ManagedBitrate]"
  by (simp add: setup_mode_def setup_calls_def gst_vorbisenc_setup_def update_start_message_def
      setup_finish_def call_backend_def g_object_notify_def Let_def)

lemma setup_forces_quality_set:
  "bitrate enc < 0 \<Longrightarrow> min_bitrate enc < 0 \<Longrightarrow> max_bitrate enc < 0 \<Longrightarrow>
   quality_set (fst (snd (gst_vorbisenc_setup accept (enc, w))))"
  by (simp add: gst_vorbisenc_setup_def update_start_message_def setup_finish_def Let_def)

lemma stereo_session_eq:
  "stereo_session p =
     (gst_vorbisenc_init\<lparr>channels := 2, frequency := 44100, quality_set := True,
        last_message := Some (Quality_level QUALITY_DEFAULT), setup_flag := True\<rparr>,
      (quiet_world p)\<lparr>notified := [''last_message''],
        backend := [Vorbis_encode_setup_vbr 2 44100 QUALITY_DEFAULT, Ratemanage_off,
                    Vorbis_encode_setup_init, Vorbis_analysis_init]\<rparr>)"
  by (simp add: stereo_session_def gst_vorbisenc_sink_setcaps_def gst_vorbisenc_setup_def
      update_start_message_def setup_finish_def call_backend_def g_object_notify_def
      gst_vorbisenc_init_def quiet_world_def Let_def)

subsection \<open>The traces\<close>

lemma call_backend_fields [simp]:
  "backend (call_backend c w) = backend w @ [c]"
  "pushed (call_backend c w) = pushed w"
  "peer (call_backend c w) = peer w"
  "streamheader (call_backend c w) = streamheader w"
  "posted (call_backend c w) = posted w"
  "notified (call_backend c w) = notified w"
  "unreffed (call_backend c w) = unreffed w"
  "sent_events (call_backend c w) = sent_events w"
  by (simp_all add: call_backend_def)

subsection \<open>The drain loop\<close>

lemma push_packet_eq:
  "gst_vorbisenc_push_packet pkt (enc, w) =
     (peer w (length (pushed w)),
      enc\<lparr>next_ts := granulepos_to_timestamp_offset enc (granulepos pkt),
          bytes_out := bytes_out enc + of_nat (length (packet pkt))\<rparr>,
      w\<lparr>pushed := pushed w @
           [\<lparr>GST_BUFFER_DATA = packet pkt,
             GST_BUFFER_OFFSET =
               granulepos_to_timestamp enc (granulepos pkt + granulepos_offset enc),
             GST_BUFFER_OFFSET_END = granulepos pkt + granulepos_offset enc,
             GST_BUFFER_TIMESTAMP = next_ts enc,
             GST_BUFFER_DURATION =
               granulepos_to_timestamp_offset enc (granulepos pkt) - next_ts enc,
             GST_BUFFER_FLAG_IN_CAPS = False\<rparr>]\<rparr>)"
  by (simp add: gst_vorbisenc_push_packet_def gst_vorbisenc_buffer_from_packet_def
      gst_vorbisenc_push_buffer_def GST_BUFFER_SIZE_def Let_def)

text \<open>
  An invariant of the state that every pushed packet and every analysed block keeps is
  kept by the drain loop.
\<close>

lemma flush_packets_invariant:
  assumes "P s"
    and "\<And>pkt t. pkt \<in> set pkts \<Longrightarrow> P t \<Longrightarrow> P (snd (gst_vorbisenc_push_packet pkt t))"
  shows "P (snd (flush_packets pkts s))"
  using assms
proof (induction pkts arbitrary: s)
  case Nil
  then show ?case by simp
next
  case (Cons pkt pkts)
  have step: "P (snd (gst_vorbisenc_push_packet pkt s))"
    using Cons.prems by simp
  show ?case
  proof (cases "fst (gst_vorbisenc_push_packet pkt s) = GST_FLOW_OK")
    case True
    have "P (snd (flush_packets pkts (snd (gst_vorbisenc_push_packet pkt s))))"
      using Cons.IH [where s = "snd (gst_vorbisenc_push_packet pkt s)"] step Cons.prems(2)
      by simp
    with True show ?thesis by (simp add: case_prod_beta)
  next
    case False
    with step show ?thesis by (simp add: case_prod_beta)
  qed
qed

lemma output_buffers_invariant:
  assumes "P s"
    and "\<And>pkt t. pkt \<in> set (concat blks) \<Longrightarrow> P t \<Longrightarrow> P (snd (gst_vorbisenc_push_packet pkt t))"
    and "\<And>t. P t \<Longrightarrow> P (fst t, call_backend Vorbis_analysis_block (snd t))"
  shows "P (snd (gst_vorbisenc_output_buffers blks s))"
  using assms
proof (induction blks arbitrary: s)
  case Nil
  then show ?case by simp
next
  case (Cons blk blks)
  let ?t = "flush_packets blk (fst s, call_backend Vorbis_analysis_block (snd s))"
  have start: "P (fst s, call_backend Vorbis_analysis_block (snd s))"
    using Cons.prems(1,3) by simp
  have flushed: "P (snd ?t)"
    using flush_packets_invariant
            [where P = P and pkts = blk
               and s = "(fst s, call_backend Vorbis_analysis_block (snd s))"]
          start Cons.prems(2)
    by simp
  show ?case
  proof (cases "fst ?t")
    case None
    have "P (snd (gst_vorbisenc_output_buffers blks (snd ?t)))"
      using Cons.IH [where s = "snd ?t"] flushed Cons.prems(2,3) by simp
    with None show ?thesis by (simp add: case_prod_beta)
  next
    case (Some ret)
    with flushed show ?thesis by (simp add: case_prod_beta)
  qed
qed

lemma drained_refl: "drained s s"
  by (simp add: drained_def)

lemma drained_push_packet:
  assumes "drained s t"
  shows "drained s (snd (gst_vorbisenc_push_packet pkt t))"
proof -
  obtain enc w where t: "t = (enc, w)" by (cases t)
  from assms obtain us cs where
    e: "enc = (fst s)\<lparr>next_ts := next_ts enc, bytes_out := bytes_out enc\<rparr>" and
    w: "w = (snd s)\<lparr>pushed := pushed w, backend := backend w\<rparr>" and
    us: "pushed w = pushed (snd s) @ us" "list_all (\<lambda>b. \<not> GST_BUFFER_FLAG_IN_CAPS b) us" and
    cs: "backend w = backend (snd s) @ cs" "list_all (\<lambda>c. c = Vorbis_analysis_block) cs"
    unfolding drained_def t by auto
  let ?enc' = "fst (snd (gst_vorbisenc_push_packet pkt (enc, w)))"
  let ?w' = "snd (snd (gst_vorbisenc_push_packet pkt (enc, w)))"
  have e2: "enc\<lparr>next_ts := x, bytes_out := y\<rparr> = (fst s)\<lparr>next_ts := x, bytes_out := y\<rparr>"
    for x y by (subst e) simp
  have w2: "w\<lparr>pushed := x\<rparr> = (snd s)\<lparr>pushed := x, backend := backend w\<rparr>"
    for x by (subst w) simp
  have e': "?enc' = (fst s)\<lparr>next_ts := next_ts ?enc', bytes_out := bytes_out ?enc'\<rparr>"
    by (simp add: push_packet_eq e2)
  have w': "?w' = (snd s)\<lparr>pushed := pushed ?w', backend := backend ?w'\<rparr>"
    by (simp add: push_packet_eq w2)
  have us': "\<exists>vs. pushed ?w' = pushed (snd s) @ vs \<and>
               list_all (\<lambda>b. \<not> GST_BUFFER_FLAG_IN_CAPS b) vs"
    using us by (simp add: push_packet_eq)
  have cs': "\<exists>ds. backend ?w' = backend (snd s) @ ds \<and>
               list_all (\<lambda>c. c = Vorbis_analysis_block) ds"
    using cs by (simp add: push_packet_eq)
  from e' w' us' cs' show ?thesis
    unfolding drained_def t by simp
qed

lemma drained_analysis_block:
  assumes "drained s t"
  shows "drained s (fst t, call_backend Vorbis_analysis_block (snd t))"
proof -
  from assms obtain us cs where
    e: "fst t = (fst s)\<lparr>next_ts := next_ts (fst t), bytes_out := bytes_out (fst t)\<rparr>" and
    w: "snd t = (snd s)\<lparr>pushed := pushed (snd t), backend := backend (snd t)\<rparr>" and
    us: "pushed (snd t) = pushed (snd s) @ us" "list_all (\<lambda>b. \<not> GST_BUFFER_FLAG_IN_CAPS b) us" and
    cs: "backend (snd t) = backend (snd s) @ cs" "list_all (\<lambda>c. c = Vorbis_analysis_block) cs"
    unfolding drained_def by auto
  let ?w' = "call_backend Vorbis_analysis_block (snd t)"
  have w2: "(snd t)\<lparr>backend := x\<rparr> = (snd s)\<lparr>pushed := pushed (snd t), backend := x\<rparr>"
    for x by (subst w) simp
  have w': "?w' = (snd s)\<lparr>pushed := pushed ?w', backend := backend ?w'\<rparr>"
    by (simp add: call_backend_def w2)
  have us': "\<exists>vs. pushed ?w' = pushed (snd s) @ vs \<and>
               list_all (\<lambda>b. \<not> GST_BUFFER_FLAG_IN_CAPS b) vs"
    using us by (simp add: call_backend_def)
  have cs': "\<exists>ds. backend ?w' = backend (snd s) @ ds \<and>
               list_all (\<lambda>c. c = Vorbis_analysis_block) ds"
    using cs by (simp add: call_backend_def)
  from e w' us' cs' show ?thesis
    unfolding drained_def by simp
qed

lemma drained_output_buffers:
  "drained s (snd (gst_vorbisenc_output_buffers blks s))"
  using output_buffers_invariant [where P = "drained s" and s = s and blks = blks]
        drained_refl drained_push_packet drained_analysis_block
  by blast


lemma drained_fields:
  assumes "drained s t"
  shows "setup_flag (fst t) = setup_flag (fst s)"
    and "header_sent (fst t) = header_sent (fst s)"
    and "samples_in (fst t) = samples_in (fst s)"
    and "granulepos_offset (fst t) = granulepos_offset (fst s)"
    and "subgranule_offset (fst t) = subgranule_offset (fst s)"
    and "frequency (fst t) = frequency (fst s)"
    and "channels (fst t) = channels (fst s)"
    and "streamheader (snd t) = streamheader (snd s)"
    and "posted (snd t) = posted (snd s)"
    and "unreffed (snd t) = unreffed (snd s)"
    and "sent_events (snd t) = sent_events (snd s)"
    and "peer (snd t) = peer (snd s)"
proof -
  from assms have
    e: "fst t = (fst s)\<lparr>next_ts := next_ts (fst t), bytes_out := bytes_out (fst t)\<rparr>" and
    w: "snd t = (snd s)\<lparr>pushed := pushed (snd t), backend := backend (snd t)\<rparr>"
    unfolding drained_def by auto
  show "setup_flag (fst t) = setup_flag (fst s)" by (subst e) simp
  show "header_sent (fst t) = header_sent (fst s)" by (subst e) simp
  show "samples_in (fst t) = samples_in (fst s)" by (subst e) simp
  show "granulepos_offset (fst t) = granulepos_offset (fst s)" by (subst e) simp
  show "subgranule_offset (fst t) = subgranule_offset (fst s)" by (subst e) simp
  show "frequency (fst t) = frequency (fst s)" by (subst e) simp
  show "channels (fst t) = channels (fst s)" by (subst e) simp
  show "streamheader (snd t) = streamheader (snd s)" by (subst w) simp
  show "posted (snd t) = posted (snd s)" by (subst w) simp
  show "unreffed (snd t) = unreffed (snd s)" by (subst w) simp
  show "sent_events (snd t) = sent_events (snd s)" by (subst w) simp
  show "peer (snd t) = peer (snd s)" by (subst w) simp
qed

lemma headerout_calls_append:
  "headerout_calls (cs @ ds) = headerout_calls cs + headerout_calls ds"
  by (simp add: headerout_calls_def)

lemma headerout_calls_blocks:
  "list_all (\<lambda>c. c = Vorbis_analysis_block) cs \<Longrightarrow> headerout_calls cs = 0"
  by (induction cs) (auto simp add: headerout_calls_def)

subsection \<open>Deinterleaving\<close>

lemma row_update_length:
  "length (xs[j := (xs ! j)[i := v]] ! r) = length (xs ! r)"
  by (cases "j < length xs") (simp_all add: nth_list_update list_update_beyond)

lemma row_update_nth:
  "j < length xs \<Longrightarrow> c < length (xs ! r) \<Longrightarrow>
   xs[j := (xs ! j)[i := v]] ! r ! c = (if r = j \<and> c = i then v else xs ! r ! c)"
  by (auto simp add: nth_list_update)

lemma deinterleave_frame_snd:
  "snd (deinterleave_frame nch i j data s) = snd s + (nch - j)"
proof (induction nch i j data s rule: deinterleave_frame.induct)
  case (1 nch i j data s)
  show ?case
  proof (cases "j < nch")
    case True
    with "1" show ?thesis by (subst deinterleave_frame.simps) simp
  next
    case False
    then show ?thesis by (subst deinterleave_frame.simps) simp
  qed
qed

lemma deinterleave_frame_length:
  "length (fst (deinterleave_frame nch i j data s)) = length (fst s)"
proof (induction nch i j data s rule: deinterleave_frame.induct)
  case (1 nch i j data s)
  show ?case
  proof (cases "j < nch")
    case True
    with "1" show ?thesis by (subst deinterleave_frame.simps) simp
  next
    case False
    then show ?thesis by (subst deinterleave_frame.simps) simp
  qed
qed

lemma deinterleave_frame_row_length:
  "r < length (fst s) \<Longrightarrow>
   length (fst (deinterleave_frame nch i j data s) ! r) = length (fst s ! r)"
proof (induction nch i j data s rule: deinterleave_frame.induct)
  case (1 nch i j data s)
  show ?case
  proof (cases "j < nch")
    case True
    with "1" show ?thesis
      by (subst deinterleave_frame.simps) (simp add: row_update_length)
  next
    case False
    then show ?thesis by (subst deinterleave_frame.simps) simp
  qed
qed

lemma deinterleave_frame_nth:
  "r < length (fst s) \<Longrightarrow> c < length (fst s ! r) \<Longrightarrow> nch \<le> length (fst s) \<Longrightarrow>
   fst (deinterleave_frame nch i j data s) ! r ! c =
     (if j \<le> r \<and> r < nch \<and> c = i then data ! (snd s + (r - j)) else fst s ! r ! c)"
proof (induction nch i j data s rule: deinterleave_frame.induct)
  case (1 nch i j data s)
  show ?case
  proof (cases "j < nch")
    case True
    let ?s1 = "((fst s)[j := (fst s ! j)[i := data ! snd s]], Suc (snd s))"
    have j: "j < length (fst s)" using True "1.prems"(3) by simp
    have len: "r < length (fst ?s1)" "c < length (fst ?s1 ! r)" "nch \<le> length (fst ?s1)"
      using "1.prems" by (simp_all add: row_update_length)
    have ih: "fst (deinterleave_frame nch i (Suc j) data ?s1) ! r ! c =
        (if Suc j \<le> r \<and> r < nch \<and> c = i then data ! (snd ?s1 + (r - Suc j))
         else fst ?s1 ! r ! c)"
      using "1.IH" [OF True len] .
    have unfold: "deinterleave_frame nch i j data s = deinterleave_frame nch i (Suc j) data ?s1"
      using True by (subst deinterleave_frame.simps) simp
    have row: "fst ?s1 ! r ! c = (if r = j \<and> c = i then data ! snd s else fst s ! r ! c)"
      using row_update_nth [OF j "1.prems"(2)] by simp
    have idx: "Suc j \<le> r \<Longrightarrow> Suc (snd s) + (r - Suc j) = snd s + (r - j)"
      by arith
    show ?thesis
    proof (cases "Suc j \<le> r \<and> r < nch \<and> c = i")
      case True
      then show ?thesis unfolding unfold ih using idx by simp
    next
      case False
      then show ?thesis unfolding unfold ih row using True by auto
    qed
  next
    case False
    then show ?thesis by (subst deinterleave_frame.simps) auto
  qed
qed

lemma deinterleave_length:
  "length (fst (deinterleave frames nch i data s)) = length (fst s)"
proof (induction frames nch i data s rule: deinterleave.induct)
  case (1 frames nch i data s)
  show ?case
  proof (cases "i < frames")
    case True
    with "1" show ?thesis
      by (subst deinterleave.simps) (simp add: deinterleave_frame_length)
  next
    case False
    then show ?thesis by (subst deinterleave.simps) simp
  qed
qed

lemma deinterleave_row_length:
  "r < length (fst s) \<Longrightarrow>
   length (fst (deinterleave frames nch i data s) ! r) = length (fst s ! r)"
proof (induction frames nch i data s rule: deinterleave.induct)
  case (1 frames nch i data s)
  show ?case
  proof (cases "i < frames")
    case True
    with "1" show ?thesis
      by (subst deinterleave.simps)
         (simp add: deinterleave_frame_length deinterleave_frame_row_length)
  next
    case False
    then show ?thesis by (subst deinterleave.simps) simp
  qed
qed

lemma deinterleave_nth:
  "r < length (fst s) \<Longrightarrow> c < length (fst s ! r) \<Longrightarrow> nch \<le> length (fst s) \<Longrightarrow>
   fst (deinterleave frames nch i data s) ! r ! c =
     (if i \<le> c \<and> c < frames \<and> r < nch then data ! (snd s + (c - i) * nch + r)
      else fst s ! r ! c)"
proof (induction frames nch i data s rule: deinterleave.induct)
  case (1 frames nch i data s)
  show ?case
  proof (cases "i < frames")
    case True
    let ?s1 = "deinterleave_frame nch i 0 data s"
    have len: "r < length (fst ?s1)" "c < length (fst ?s1 ! r)" "nch \<le> length (fst ?s1)"
      using "1.prems" by (simp_all add: deinterleave_frame_length deinterleave_frame_row_length)
    have ih: "fst (deinterleave frames nch (Suc i) data ?s1) ! r ! c =
        (if Suc i \<le> c \<and> c < frames \<and> r < nch
         then data ! (snd ?s1 + (c - Suc i) * nch + r) else fst ?s1 ! r ! c)"
      using "1.IH" [OF True len] .
    have unfold: "deinterleave frames nch i data s = deinterleave frames nch (Suc i) data ?s1"
      using True by (subst deinterleave.simps) simp
    have row: "fst ?s1 ! r ! c =
        (if r < nch \<and> c = i then data ! (snd s + r) else fst s ! r ! c)"
      using deinterleave_frame_nth [of r s c nch i 0 data] "1.prems" by simp
    have pos: "snd ?s1 = snd s + nch"
      by (simp add: deinterleave_frame_snd)
    have idx: "snd s + nch + (c - Suc i) * nch + r = snd s + (c - i) * nch + r"
      if "Suc i \<le> c"
    proof -
      from that have "c - i = Suc (c - Suc i)" by arith
      then show ?thesis by simp
    qed
    show ?thesis
    proof (cases "Suc i \<le> c \<and> c < frames \<and> r < nch")
      case True
      then have "data ! (snd s + nch + (c - Suc i) * nch + r) =
                 data ! (snd s + (c - i) * nch + r)"
        by (simp only: idx)
      with True show ?thesis unfolding unfold ih pos by auto
    next
      case False
      then show ?thesis unfolding unfold ih row using True by auto
    qed
  next
    case False
    then show ?thesis by (subst deinterleave.simps) auto
  qed
qed

lemma deinterleave_spec:
  "fst (deinterleave frames nch 0 data (replicate nch (replicate frames 0), 0)) =
     spec_deinterleave nch frames data"
proof (rule nth_equalityI)
  show "length (fst (deinterleave frames nch 0 data (replicate nch (replicate frames 0), 0))) =
        length (spec_deinterleave nch frames data)"
    by (simp add: deinterleave_length spec_deinterleave_def)
next
  fix r
  assume "r < length (fst (deinterleave frames nch 0 data (replicate nch (replicate frames 0), 0)))"
  then have r: "r < nch" by (simp add: deinterleave_length)
  show "fst (deinterleave frames nch 0 data (replicate nch (replicate frames 0), 0)) ! r =
        spec_deinterleave nch frames data ! r"
  proof (rule nth_equalityI)
    show "length (fst (deinterleave frames nch 0 data (replicate nch (replicate frames 0), 0)) ! r) =
          length (spec_deinterleave nch frames data ! r)"
      using r by (simp add: deinterleave_row_length spec_deinterleave_def)
  next
    fix c
    assume "c < length (fst (deinterleave frames nch 0 data
                               (replicate nch (replicate frames 0), 0)) ! r)"
    then have c: "c < frames" using r by (simp add: deinterleave_row_length)
    show "fst (deinterleave frames nch 0 data (replicate nch (replicate frames 0), 0)) ! r ! c =
          spec_deinterleave nch frames data ! r ! c"
      using r c
      deinterleave_nth [of r "(replicate nch (replicate frames 0), 0)" c nch frames 0 data]
      by (simp add: spec_deinterleave_def)
  qed
qed

subsection \<open>The ingestion step and the handshake\<close>

lemma unat_channels_bytes:
  assumes "0 < ch" "ch < 2 ^ 31"
  shows "unat ((word_of_int ch :: 64 word) * 4) = nat ch * 4"
proof -
  have "unat ((word_of_int ch :: 64 word) * 4) = unat (word_of_int ch :: 64 word) * unat (4 :: 64 word) mod 2 ^ 64"
    by (simp add: unat_word_ariths)
  also have "\<dots> = nat ch * 4 mod 2 ^ 64"
    using assms by (simp add: unat_frequency)
  also have "\<dots> = nat ch * 4"
    using assms by simp
  finally show ?thesis .
qed

lemma frame_count:
  assumes "0 < ch" "ch < 2 ^ 31" "n < 2 ^ 32"
  shows "unat ((of_nat n :: 64 word) div (word_of_int ch * 4)) = n div (nat ch * 4)"
proof -
  have "unat (of_nat n :: 64 word) = n"
    using assms(3) by (simp add: unat_of_nat)
  then show ?thesis
    using assms by (simp add: unat_div unat_channels_bytes)
qed

lemma submit_samples_eq:
  assumes "0 < channels enc" "channels enc < 2 ^ 31" "raw_size buffer < 2 ^ 32"
  shows "submit_samples buffer (enc, w) =
     Some (enc\<lparr>samples_in := samples_in enc
                  + of_nat (raw_size buffer div (nat (channels enc) * 4))\<rparr>,
           (call_backend
              (Vorbis_analysis_wrote
                 (spec_deinterleave (nat (channels enc))
                    (raw_size buffer div (nat (channels enc) * 4)) (raw_data buffer))
                 (raw_size buffer div (nat (channels enc) * 4))) w)
             \<lparr>unreffed := unreffed w @ [buffer]\<rparr>)"
proof -
  have nz: "(word_of_int (channels enc) :: 64 word) * 4 \<noteq> 0"
    using unat_channels_bytes [OF assms(1,2)] assms(1)
    by (metis mult_is_0 nat_0_iff not_less unat_0 zero_neq_numeral)
  show ?thesis
    using nz assms
    by (simp add: submit_samples_def Let_def frame_count unat_frequency deinterleave_spec)
qed

lemma handshake_accepted:
  assumes "peer w (length (pushed w)) = GST_FLOW_OK"
    and "peer w (Suc (length (pushed w))) = GST_FLOW_OK"
    and "peer w (Suc (Suc (length (pushed w)))) = GST_FLOW_OK"
  shows "header_handshake reply buffer (enc, w) =
     (GST_FLOW_OK,
      (adjust_granulepos buffer
         (enc\<lparr>next_ts := 0, granulepos_offset := 0, subgranule_offset := 0,
              bytes_out := bytes_out enc + of_nat (length (packet (header reply)))
                           + of_nat (length (packet (header_comm reply)))
                           + of_nat (length (packet (header_code reply)))\<rparr>))
        \<lparr>header_sent := True\<rparr>,
      w\<lparr>backend := backend w @ [Vorbis_analysis_headerout],
         streamheader := Some (header_units enc reply),
         pushed := pushed w @ header_units enc reply\<rparr>)"
  using assms
  by (simp add: header_handshake_def Let_def gst_vorbisenc_push_buffer_def
      gst_vorbisenc_buffer_from_header_packet_def GST_BUFFER_SIZE_def header_units_def
      call_backend_def)

subsection \<open>The chain function, case by case\<close>

lemma handshake_done_eq:
  "accepts_headers w \<Longrightarrow>
   header_handshake reply buffer (enc, w) = (GST_FLOW_OK, handshake_done reply buffer (enc, w))"
  unfolding accepts_headers_def handshake_done_def
  using handshake_accepted [of w reply buffer enc] by simp

lemma submit_samples_spec:
  assumes "0 < channels (fst s)" "channels (fst s) < 2 ^ 31" "raw_size buffer < 2 ^ 32"
  shows "submit_samples buffer s = Some (spec_ingested buffer s)"
  using submit_samples_eq [of "fst s" buffer "snd s"] assms
  by (simp add: spec_ingested_def spec_frames_def)

lemma handshake_done_fields [simp]:
  "channels (fst (handshake_done reply buffer s)) = channels (fst s)"
  "frequency (fst (handshake_done reply buffer s)) = frequency (fst s)"
  "samples_in (fst (handshake_done reply buffer s)) = samples_in (fst s)"
  "setup_flag (fst (handshake_done reply buffer s)) = setup_flag (fst s)"
  "header_sent (fst (handshake_done reply buffer s))"
  "pushed (snd (handshake_done reply buffer s)) = pushed (snd s) @ header_units (fst s) reply"
  "backend (snd (handshake_done reply buffer s)) = backend (snd s) @ [Vorbis_analysis_headerout]"
  "streamheader (snd (handshake_done reply buffer s)) = Some (header_units (fst s) reply)"
  "peer (snd (handshake_done reply buffer s)) = peer (snd s)"
  "posted (snd (handshake_done reply buffer s)) = posted (snd s)"
  "unreffed (snd (handshake_done reply buffer s)) = unreffed (snd s)"
  by (simp_all add: handshake_done_def adjust_granulepos_def Let_def)

lemma spec_ingested_fields [simp]:
  "channels (fst (spec_ingested buffer s)) = channels (fst s)"
  "frequency (fst (spec_ingested buffer s)) = frequency (fst s)"
  "samples_in (fst (spec_ingested buffer s)) =
     samples_in (fst s) + of_nat (spec_frames (fst s) buffer)"
  "next_ts (fst (spec_ingested buffer s)) = next_ts (fst s)"
  "granulepos_offset (fst (spec_ingested buffer s)) = granulepos_offset (fst s)"
  "subgranule_offset (fst (spec_ingested buffer s)) = subgranule_offset (fst s)"
  "setup_flag (fst (spec_ingested buffer s)) = setup_flag (fst s)"
  "header_sent (fst (spec_ingested buffer s)) = header_sent (fst s)"
  "pushed (snd (spec_ingested buffer s)) = pushed (snd s)"
  "backend (snd (spec_ingested buffer s)) =
     backend (snd s) @
     [Vorbis_analysis_wrote
        (spec_deinterleave (nat (channels (fst s))) (spec_frames (fst s) buffer)
           (raw_data buffer))
        (spec_frames (fst s) buffer)]"
  "streamheader (snd (spec_ingested buffer s)) = streamheader (snd s)"
  "peer (snd (spec_ingested buffer s)) = peer (snd s)"
  "posted (snd (spec_ingested buffer s)) = posted (snd s)"
  by (simp_all add: spec_ingested_def)

lemma chain_after_headers:
  assumes "setup_flag enc" "header_sent enc"
    and "0 < channels enc" "channels enc < 2 ^ 31" "raw_size buffer < 2 ^ 32"
  shows "gst_vorbisenc_chain reply buffer (enc, w) =
     Some (gst_vorbisenc_output_buffers (blocks reply) (spec_ingested buffer (enc, w)))"
  using assms submit_samples_spec [of "(enc, w)" buffer]
  by (simp add: gst_vorbisenc_chain_def)

lemma chain_first_buffer:
  assumes "setup_flag enc" "\<not> header_sent enc" "accepts_headers w"
    and "0 < channels enc" "channels enc < 2 ^ 31" "raw_size buffer < 2 ^ 32"
  shows "gst_vorbisenc_chain reply buffer (enc, w) =
     Some (gst_vorbisenc_output_buffers (blocks reply)
             (spec_ingested buffer (handshake_done reply buffer (enc, w))))"
proof -
  have "submit_samples buffer (handshake_done reply buffer (enc, w)) =
        Some (spec_ingested buffer (handshake_done reply buffer (enc, w)))"
    by (rule submit_samples_spec) (use assms in simp_all)
  then show ?thesis
    using assms(1,2) handshake_done_eq [OF assms(3), of reply buffer enc]
    by (simp add: gst_vorbisenc_chain_def case_prod_beta)
qed

lemma wrote_calls_append: "wrote_calls (cs @ ds) = wrote_calls cs @ wrote_calls ds"
  by (induction cs) (simp_all add: wrote_calls_def split: option.splits)

lemma wrote_calls_blocks:
  "list_all (\<lambda>c. c = Vorbis_analysis_block) cs \<Longrightarrow> wrote_calls cs = []"
  by (induction cs) (auto simp add: wrote_calls_def)

lemma spec_deinterleave_nth:
  "j < nch \<Longrightarrow> i < frames \<Longrightarrow> spec_deinterleave nch frames data ! j ! i = data ! (i * nch + j)"
  by (simp add: spec_deinterleave_def)

text \<open>
  What the drain after an ingestion leaves of it: the one submitted block and the
  advanced sample counter.
\<close>

lemma drain_after_ingest:
  assumes "backend (snd s) = backend w @ pre"
    and "wrote_calls pre = []"
  shows "case gst_vorbisenc_output_buffers (blocks reply) (spec_ingested buffer s) of
           (ret, enc', w') \<Rightarrow>
             wrote_calls (new_calls w w') =
               [(spec_deinterleave (nat (channels (fst s))) (spec_frames (fst s) buffer)
                   (raw_data buffer), spec_frames (fst s) buffer)] \<and>
             samples_in enc' = samples_in (fst s) + of_nat (spec_frames (fst s) buffer)"
proof -
  define t where "t = snd (gst_vorbisenc_output_buffers (blocks reply) (spec_ingested buffer s))"
  have d: "drained (spec_ingested buffer s) t"
    unfolding t_def by (rule drained_output_buffers)
  from d obtain cs where
    cs: "backend (snd t) = backend (snd (spec_ingested buffer s)) @ cs"
        "list_all (\<lambda>c. c = Vorbis_analysis_block) cs"
    unfolding drained_def by auto
  have b: "backend (snd t) = backend w @ pre @
      [Vorbis_analysis_wrote
        (spec_deinterleave (nat (channels (fst s))) (spec_frames (fst s) buffer)
           (raw_data buffer))
        (spec_frames (fst s) buffer)] @ cs"
    using cs(1) assms(1) by simp
  have calls: "wrote_calls (new_calls w (snd t)) =
      [(spec_deinterleave (nat (channels (fst s))) (spec_frames (fst s) buffer)
          (raw_data buffer), spec_frames (fst s) buffer)]"
    using assms(2) wrote_calls_blocks [OF cs(2)]
    by (simp add: new_calls_def b wrote_calls_append) (simp add: wrote_calls_def)
  have "samples_in (fst t) = samples_in (fst s) + of_nat (spec_frames (fst s) buffer)"
    using drained_fields(3) [OF d] by simp
  with calls show ?thesis
    by (simp add: t_def case_prod_beta)
qed

subsection \<open>Evaluating concrete runs\<close>

lemmas run_defs =
  gst_vorbisenc_chain_def header_handshake_def gst_vorbisenc_push_buffer_def
  gst_vorbisenc_buffer_from_header_packet_def GST_BUFFER_SIZE_def adjust_granulepos_def
  submit_samples_def raw_size_def push_packet_eq call_backend_def
  gst_vorbisenc_sink_event_def gst_vorbisenc_clear_def
  stereo_session_eq gst_vorbisenc_init_def quiet_world_def accepting_def refusing_first_def
  three_headers_def four_samples_def

subsection \<open>Runs after the handshake\<close>

lemma streamed_refl: "streamed s s"
  by (simp add: streamed_def headerout_calls_def)

lemma streamed_trans:
  assumes "streamed s t" "streamed t u"
  shows "streamed s u"
proof -
  from assms(1) obtain us cs where
    e1: "fst t = (fst s)\<lparr>next_ts := next_ts (fst t), bytes_out := bytes_out (fst t),
                     samples_in := samples_in (fst t)\<rparr>" and
    w1: "snd t = (snd s)\<lparr>pushed := pushed (snd t), backend := backend (snd t),
                     unreffed := unreffed (snd t)\<rparr>" and
    us: "pushed (snd t) = pushed (snd s) @ us" "list_all (\<lambda>b. \<not> GST_BUFFER_FLAG_IN_CAPS b) us" and
    cs: "backend (snd t) = backend (snd s) @ cs" "headerout_calls cs = 0"
    unfolding streamed_def by auto
  from assms(2) obtain vs ds where
    e2: "fst u = (fst t)\<lparr>next_ts := next_ts (fst u), bytes_out := bytes_out (fst u),
                     samples_in := samples_in (fst u)\<rparr>" and
    w2: "snd u = (snd t)\<lparr>pushed := pushed (snd u), backend := backend (snd u),
                     unreffed := unreffed (snd u)\<rparr>" and
    vs: "pushed (snd u) = pushed (snd t) @ vs" "list_all (\<lambda>b. \<not> GST_BUFFER_FLAG_IN_CAPS b) vs" and
    ds: "backend (snd u) = backend (snd t) @ ds" "headerout_calls ds = 0"
    unfolding streamed_def by auto
  have e: "fst u = (fst s)\<lparr>next_ts := next_ts (fst u), bytes_out := bytes_out (fst u),
                     samples_in := samples_in (fst u)\<rparr>"
    by (subst e2, subst e1) simp
  have w: "snd u = (snd s)\<lparr>pushed := pushed (snd u), backend := backend (snd u),
                     unreffed := unreffed (snd u)\<rparr>"
    by (subst w2, subst w1) simp
  have p: "\<exists>xs. pushed (snd u) = pushed (snd s) @ xs \<and>
             list_all (\<lambda>b. \<not> GST_BUFFER_FLAG_IN_CAPS b) xs"
    using us vs by simp
  have b: "\<exists>xs. backend (snd u) = backend (snd s) @ xs \<and> headerout_calls xs = 0"
    using cs ds by (simp add: headerout_calls_append)
  from e w p b show ?thesis unfolding streamed_def by blast
qed

lemma drained_streamed:
  assumes "drained s t"
  shows "streamed s t"
proof -
  from assms obtain us cs where
    e: "fst t = (fst s)\<lparr>next_ts := next_ts (fst t), bytes_out := bytes_out (fst t)\<rparr>" and
    w: "snd t = (snd s)\<lparr>pushed := pushed (snd t), backend := backend (snd t)\<rparr>" and
    us: "pushed (snd t) = pushed (snd s) @ us" "list_all (\<lambda>b. \<not> GST_BUFFER_FLAG_IN_CAPS b) us" and
    cs: "backend (snd t) = backend (snd s) @ cs" "list_all (\<lambda>c. c = Vorbis_analysis_block) cs"
    unfolding drained_def by auto
  have e': "fst t = (fst s)\<lparr>next_ts := next_ts (fst t), bytes_out := bytes_out (fst t),
                     samples_in := samples_in (fst t)\<rparr>"
    by (subst e) (simp add: drained_fields(3) [OF assms])
  have w': "snd t = (snd s)\<lparr>pushed := pushed (snd t), backend := backend (snd t),
                     unreffed := unreffed (snd t)\<rparr>"
    by (subst w) (simp add: drained_fields(10) [OF assms])
  from e' w' us cs headerout_calls_blocks [OF cs(2)] show ?thesis
    unfolding streamed_def by blast
qed

lemma submit_samples_streamed:
  assumes "0 < channels (fst s)" "channels (fst s) < 2 ^ 31"
  shows "\<exists>t. submit_samples buffer s = Some t \<and> streamed s t"
proof -
  have nz: "(word_of_int (channels (fst s)) :: 64 word) * 4 \<noteq> 0"
    using unat_channels_bytes [OF assms] assms(1)
    by (metis mult_is_0 nat_0_iff not_less unat_0 zero_neq_numeral)
  define t where "t = the (submit_samples buffer s)"
  have some: "submit_samples buffer s = Some t"
    using nz by (simp add: t_def submit_samples_def Let_def)
  have "streamed s t"
    using nz
    by (simp add: t_def submit_samples_def Let_def streamed_def headerout_calls_def)
  with some show ?thesis by blast
qed

lemma chain_streamed:
  assumes "setup_flag (fst s)" "header_sent (fst s)"
    and "0 < channels (fst s)" "channels (fst s) < 2 ^ 31"
  shows "\<exists>ret t. gst_vorbisenc_chain reply buffer s = Some (ret, t) \<and> streamed s t"
proof -
  from submit_samples_streamed [OF assms(3,4), of buffer] obtain s2 where
    s2: "submit_samples buffer s = Some s2" "streamed s s2" by blast
  have "streamed s2 (snd (gst_vorbisenc_output_buffers (blocks reply) s2))"
    by (rule drained_streamed) (rule drained_output_buffers)
  with s2(2) have "streamed s (snd (gst_vorbisenc_output_buffers (blocks reply) s2))"
    by (rule streamed_trans)
  moreover have "gst_vorbisenc_chain reply buffer s =
      Some (gst_vorbisenc_output_buffers (blocks reply) s2)"
    using assms(1,2) s2(1) by (simp add: gst_vorbisenc_chain_def)
  ultimately show ?thesis
    by (metis prod.collapse)
qed

lemma streamed_fields:
  assumes "streamed s t"
  shows "setup_flag (fst t) = setup_flag (fst s)"
    and "header_sent (fst t) = header_sent (fst s)"
    and "granulepos_offset (fst t) = granulepos_offset (fst s)"
    and "subgranule_offset (fst t) = subgranule_offset (fst s)"
    and "frequency (fst t) = frequency (fst s)"
    and "channels (fst t) = channels (fst s)"
    and "streamheader (snd t) = streamheader (snd s)"
    and "posted (snd t) = posted (snd s)"
    and "peer (snd t) = peer (snd s)"
proof -
  from assms have
    e: "fst t = (fst s)\<lparr>next_ts := next_ts (fst t), bytes_out := bytes_out (fst t),
                     samples_in := samples_in (fst t)\<rparr>" and
    w: "snd t = (snd s)\<lparr>pushed := pushed (snd t), backend := backend (snd t),
                     unreffed := unreffed (snd t)\<rparr>"
    unfolding streamed_def by auto
  show "setup_flag (fst t) = setup_flag (fst s)" by (subst e) simp
  show "header_sent (fst t) = header_sent (fst s)" by (subst e) simp
  show "granulepos_offset (fst t) = granulepos_offset (fst s)" by (subst e) simp
  show "subgranule_offset (fst t) = subgranule_offset (fst s)" by (subst e) simp
  show "frequency (fst t) = frequency (fst s)" by (subst e) simp
  show "channels (fst t) = channels (fst s)" by (subst e) simp
  show "streamheader (snd t) = streamheader (snd s)" by (subst w) simp
  show "posted (snd t) = posted (snd s)" by (subst w) simp
  show "peer (snd t) = peer (snd s)" by (subst w) simp
qed

lemma chain_all_streamed:
  assumes "setup_flag (fst s)" "header_sent (fst s)"
    and "0 < channels (fst s)" "channels (fst s) < 2 ^ 31"
  shows "\<exists>t. chain_all rbs s = Some t \<and> streamed s t"
  using assms
proof (induction rbs arbitrary: s)
  case Nil
  then show ?case by (simp add: streamed_refl)
next
  case (Cons rb rbs)
  from chain_streamed [OF Cons.prems, of "fst rb" "snd rb"] obtain ret t where
    t: "gst_vorbisenc_chain (fst rb) (snd rb) s = Some (ret, t)" "streamed s t" by blast
  note f = streamed_fields [OF t(2)]
  have "\<exists>u. chain_all rbs t = Some u \<and> streamed t u"
    by (rule Cons.IH) (use Cons.prems f in simp_all)
  then obtain u where u: "chain_all rbs t = Some u" "streamed t u" by blast
  from streamed_trans [OF t(2) u(2)] t(1) u(1) show ?case by simp
qed

lemma chain_first_streamed:
  assumes "setup_flag enc" "\<not> header_sent enc" "accepts_headers w"
    and "0 < channels enc" "channels enc < 2 ^ 31"
  shows "\<exists>ret t. gst_vorbisenc_chain reply buffer (enc, w) = Some (ret, t) \<and>
           streamed (handshake_done reply buffer (enc, w)) t"
proof -
  let ?s1 = "handshake_done reply buffer (enc, w)"
  have "\<exists>t. submit_samples buffer ?s1 = Some t \<and> streamed ?s1 t"
    by (rule submit_samples_streamed) (use assms in simp_all)
  then obtain s2 where s2: "submit_samples buffer ?s1 = Some s2" "streamed ?s1 s2" by blast
  have "streamed s2 (snd (gst_vorbisenc_output_buffers (blocks reply) s2))"
    by (rule drained_streamed) (rule drained_output_buffers)
  with s2(2) have "streamed ?s1 (snd (gst_vorbisenc_output_buffers (blocks reply) s2))"
    by (rule streamed_trans)
  moreover have "gst_vorbisenc_chain reply buffer (enc, w) =
      Some (gst_vorbisenc_output_buffers (blocks reply) s2)"
    using assms(1,2) s2(1) handshake_done_eq [OF assms(3), of reply buffer enc]
    by (simp add: gst_vorbisenc_chain_def case_prod_beta)
  ultimately show ?thesis
    by (metis prod.collapse)
qed

text \<open>
  A session whose first handshake the peer accepts: the run returns, and after the
  handshake nothing but streaming happens.
\<close>

lemma session_streamed:
  assumes "setup_flag enc" "\<not> header_sent enc" "accepts_headers w"
    and "0 < channels enc" "channels enc < 2 ^ 31"
  shows "\<exists>t. chain_all (rb # rbs) (enc, w) = Some t \<and>
           streamed (handshake_done (fst rb) (snd rb) (enc, w)) t"
proof -
  let ?s1 = "handshake_done (fst rb) (snd rb) (enc, w)"
  from chain_first_streamed [OF assms, of "fst rb" "snd rb"] obtain ret t where
    t: "gst_vorbisenc_chain (fst rb) (snd rb) (enc, w) = Some (ret, t)" "streamed ?s1 t"
    by blast
  note f = streamed_fields [OF t(2)]
  have "\<exists>u. chain_all rbs t = Some u \<and> streamed t u"
    by (rule chain_all_streamed) (use assms f in simp_all)
  then obtain u where u: "chain_all rbs t = Some u" "streamed t u" by blast
  from streamed_trans [OF t(2) u(2)] t(1) u(1) show ?thesis by simp
qed

subsection \<open>The granule clock\<close>







subsection \<open>Linked data units\<close>



lemma new_output_snoc:
  "length (pushed w0) \<le> length (pushed w) \<Longrightarrow>
   new_output w0 (w\<lparr>pushed := pushed w @ us\<rparr>) = new_output w0 w @ us"
  by (simp add: new_output_def)

lemma data_units_append [simp]:
  "data_units (bs @ cs) = data_units bs @ data_units cs"
  by (simp add: data_units_def)

lemma data_units_headers:
  "list_all GST_BUFFER_FLAG_IN_CAPS hs \<Longrightarrow> data_units hs = []"
  by (induction hs) (simp_all add: data_units_def)




text \<open>The handshake, whatever the peer answers.\<close>

lemma handshake_any:
  "\<exists>hs. pushed (snd (snd (header_handshake reply buffer s))) = pushed (snd s) @ hs \<and>
        list_all GST_BUFFER_FLAG_IN_CAPS hs"
  "header_sent (fst (snd (header_handshake reply buffer s))) \<longleftrightarrow>
     header_sent (fst s) \<or> fst (header_handshake reply buffer s) = GST_FLOW_OK"
  "channels (fst (snd (header_handshake reply buffer s))) = channels (fst s)"
  "setup_flag (fst (snd (header_handshake reply buffer s))) = setup_flag (fst s)"
  by (simp_all add: header_handshake_def Let_def gst_vorbisenc_push_buffer_def
      gst_vorbisenc_buffer_from_header_packet_def adjust_granulepos_def)


lemma submit_samples_fields:
  assumes "submit_samples buffer s = Some t"
  shows "pushed (snd t) = pushed (snd s)" "next_ts (fst t) = next_ts (fst s)"
    "header_sent (fst t) = header_sent (fst s)" "setup_flag (fst t) = setup_flag (fst s)"
    "channels (fst t) = channels (fst s)" "frequency (fst t) = frequency (fst s)"
    "granulepos_offset (fst t) = granulepos_offset (fst s)"
    "subgranule_offset (fst t) = subgranule_offset (fst s)"
  using assms
  by (auto simp add: submit_samples_def Let_def split: if_splits)



text \<open>The run returns when the channel count is positive.\<close>

lemma chain_returns:
  assumes "0 < channels (fst s)" "channels (fst s) < 2 ^ 31"
  shows "\<exists>ret t. gst_vorbisenc_chain reply buffer s = Some (ret, t) \<and>
           channels (fst t) = channels (fst s)"
proof (cases "setup_flag (fst s)")
  case False
  then show ?thesis by (simp add: gst_vorbisenc_chain_def)
next
  case True
  define h where "h = (if \<not> header_sent (fst s) then header_handshake reply buffer s
                       else (GST_FLOW_OK, s))"
  have ch: "channels (fst (snd h)) = channels (fst s)"
    using handshake_any(3) [of reply buffer s] by (simp add: h_def)
  show ?thesis
  proof (cases "fst h = GST_FLOW_OK")
    case False
    with True ch show ?thesis
      by (simp add: gst_vorbisenc_chain_def h_def case_prod_beta)
  next
    case ok: True
    have "\<exists>s2. submit_samples buffer (snd h) = Some s2 \<and> streamed (snd h) s2"
      by (rule submit_samples_streamed) (use assms ch in simp_all)
    then obtain s2 where s2: "submit_samples buffer (snd h) = Some s2" "streamed (snd h) s2"
      by blast
    have d: "drained s2 (snd (gst_vorbisenc_output_buffers (blocks reply) s2))"
      by (rule drained_output_buffers)
    have "channels (fst (snd (gst_vorbisenc_output_buffers (blocks reply) s2))) = channels (fst s)"
      using drained_fields(7) [OF d] streamed_fields(6) [OF s2(2)] ch by simp
    moreover have "gst_vorbisenc_chain reply buffer s =
        Some (gst_vorbisenc_output_buffers (blocks reply) s2)"
      using True ok s2(1)
      by (simp add: gst_vorbisenc_chain_def h_def case_prod_beta split: if_splits)
    ultimately show ?thesis by (metis prod.collapse)
  qed
qed

lemma chain_all_returns:
  assumes "0 < channels (fst s)" "channels (fst s) < 2 ^ 31"
  shows "\<exists>t. chain_all rbs s = Some t"
  using assms
proof (induction rbs arbitrary: s)
  case Nil
  then show ?case by simp
next
  case (Cons rb rbs)
  from chain_returns [OF Cons.prems, of "fst rb" "snd rb"] obtain ret s1 where
    s1: "gst_vorbisenc_chain (fst rb) (snd rb) s = Some (ret, s1)"
        "channels (fst s1) = channels (fst s)" by blast
  have "\<exists>t. chain_all rbs s1 = Some t"
    by (rule Cons.IH) (use Cons.prems s1(2) in simp_all)
  with s1(1) show ?case by simp
qed

subsection \<open>Time stamps in order\<close>













lemma handshake_ok_accepts:
  "fst (header_handshake reply buffer s) = GST_FLOW_OK \<Longrightarrow> accepts_headers (snd s)"
  by (auto simp add: header_handshake_def Let_def gst_vorbisenc_push_buffer_def
      accepts_headers_def case_prod_beta split: if_splits)






subsection \<open>Headers before data\<close>

lemma header_units_length [simp]: "length (header_units enc reply) = 3"
  by (simp add: header_units_def)

lemma header_part_append [simp]:
  "header_part (bs @ cs) = header_part bs @ header_part cs"
  by (simp add: header_part_def)

lemma header_part_headers:
  "list_all GST_BUFFER_FLAG_IN_CAPS hs \<Longrightarrow> header_part hs = hs"
  by (induction hs) (simp_all add: header_part_def)

lemma headers_before_data_frame:
  assumes "headers_before_data w0 t"
    and "pushed (snd u) = pushed (snd t)" "header_sent (fst u) = header_sent (fst t)"
  shows "headers_before_data w0 u"
  using assms unfolding headers_before_data_def new_output_def by simp

lemma headers_before_data_push_packet:
  assumes "headers_before_data w0 t" "header_sent (fst t)"
  shows "headers_before_data w0 (snd (gst_vorbisenc_push_packet pkt t))
         \<and> header_sent (fst (snd (gst_vorbisenc_push_packet pkt t)))"
proof -
  obtain enc w where t: "t = (enc, w)" by (cases t)
  let ?u = "\<lparr>GST_BUFFER_DATA = packet pkt,
             GST_BUFFER_OFFSET =
               granulepos_to_timestamp enc (granulepos pkt + granulepos_offset enc),
             GST_BUFFER_OFFSET_END = granulepos pkt + granulepos_offset enc,
             GST_BUFFER_TIMESTAMP = next_ts enc,
             GST_BUFFER_DURATION =
               granulepos_to_timestamp_offset enc (granulepos pkt) - next_ts enc,
             GST_BUFFER_FLAG_IN_CAPS = False\<rparr>"
  from assms(1) have len: "length (pushed w0) \<le> length (pushed w)"
    and split: "new_output w0 w = header_part (new_output w0 w) @ data_units (new_output w0 w)"
    and three: "3 \<le> length (header_part (new_output w0 w))"
    using assms(2) unfolding headers_before_data_def t by simp_all
  have out: "new_output w0 (w\<lparr>pushed := pushed w @ [?u]\<rparr>) = new_output w0 w @ [?u]"
    using len by (rule new_output_snoc)
  have u: "data_units [?u] = [?u]" "header_part [?u] = []"
    by (simp_all add: data_units_def header_part_def)
  have "new_output w0 w @ [?u] =
        header_part (new_output w0 w) @ data_units (new_output w0 w) @ [?u]"
    using split by (metis append_assoc)
  then show ?thesis
    using len three assms(2)
    unfolding headers_before_data_def t push_packet_eq
    by (simp add: out u)
qed

lemma headers_before_data_drain:
  assumes "headers_before_data w0 s" "header_sent (fst s)"
  shows "headers_before_data w0 (snd (gst_vorbisenc_output_buffers blks s))"
proof -
  let ?P = "\<lambda>t. headers_before_data w0 t \<and> header_sent (fst t)"
  have "?P (snd (gst_vorbisenc_output_buffers blks s))"
  proof (rule output_buffers_invariant [where P = ?P])
    show "?P s" using assms by simp
  next
    fix pkt t
    assume "?P t"
    then show "?P (snd (gst_vorbisenc_push_packet pkt t))"
      using headers_before_data_push_packet [of w0 t pkt] by simp
  next
    fix t
    assume p: "?P t"
    have "headers_before_data w0 (fst t, call_backend Vorbis_analysis_block (snd t))"
      by (rule headers_before_data_frame [of w0 t]) (use p in simp_all)
    with p show "?P (fst t, call_backend Vorbis_analysis_block (snd t))" by simp
  qed
  then show ?thesis by simp
qed

lemma headers_before_data_handshake:
  assumes "headers_before_data w0 s" "\<not> header_sent (fst s)"
  shows "headers_before_data w0 (snd (header_handshake reply buffer s))"
proof -
  let ?h = "header_handshake reply buffer s"
  let ?t = "snd ?h"
  from handshake_any(1) [of reply buffer s] obtain hs where
    hs: "pushed (snd ?t) = pushed (snd s) @ hs" "list_all GST_BUFFER_FLAG_IN_CAPS hs"
    by blast
  from assms have len: "length (pushed w0) \<le> length (pushed (snd s))"
    and split0: "new_output w0 (snd s) =
                  header_part (new_output w0 (snd s)) @ data_units (new_output w0 (snd s))"
    and none: "data_units (new_output w0 (snd s)) = []"
    unfolding headers_before_data_def by blast+
  from split0 none have split: "header_part (new_output w0 (snd s)) = new_output w0 (snd s)"
    by (metis append_Nil2)
  have out: "new_output w0 (snd ?t) = new_output w0 (snd s) @ hs"
    using len by (simp add: new_output_def hs(1))
  have du: "data_units (new_output w0 (snd ?t)) = []"
    using none data_units_headers [OF hs(2)] by (simp add: out)
  have hp: "header_part (new_output w0 (snd ?t)) = new_output w0 (snd s) @ hs"
    using split header_part_headers [OF hs(2)] by (simp add: out)
  have three: "3 \<le> length (header_part (new_output w0 (snd ?t)))" if "header_sent (fst ?t)"
  proof -
    from that assms(2) handshake_any(2) [of reply buffer s]
    have ok: "fst ?h = GST_FLOW_OK" by simp
    from handshake_ok_accepts [OF ok] have "accepts_headers (snd s)" .
    from handshake_done_eq [OF this, of reply buffer "fst s"]
    have "?t = handshake_done reply buffer s" by simp
    then have "pushed (snd ?t) = pushed (snd s) @ header_units (fst s) reply" by simp
    with hs(1) have "hs = header_units (fst s) reply" by simp
    then show ?thesis by (simp add: hp)
  qed
  have len': "length (pushed w0) \<le> length (pushed (snd ?t))"
    using len by (simp add: hs(1))
  have split': "new_output w0 (snd ?t) =
                header_part (new_output w0 (snd ?t)) @ data_units (new_output w0 (snd ?t))"
    unfolding du hp by (simp add: out)
  show ?thesis
    unfolding headers_before_data_def
    using len' split' du three by blast
qed

lemma headers_before_data_chain:
  assumes "headers_before_data w0 s"
    and "gst_vorbisenc_chain reply buffer s = Some (ret, t)"
  shows "headers_before_data w0 t"
proof (cases "setup_flag (fst s)")
  case False
  with assms(2) have "pushed (snd t) = pushed (snd s)" "fst t = fst s"
    by (auto simp add: gst_vorbisenc_chain_def)
  with assms(1) show ?thesis
    using headers_before_data_frame [of w0 s t] by simp
next
  case True
  define h where "h = (if \<not> header_sent (fst s) then header_handshake reply buffer s
                       else (GST_FLOW_OK, s))"
  have lh: "headers_before_data w0 (snd h)"
    using assms(1) headers_before_data_handshake [of w0 s reply buffer]
    by (simp add: h_def)
  have sent: "fst h = GST_FLOW_OK \<Longrightarrow> header_sent (fst (snd h))"
    using handshake_any(2) [of reply buffer s] by (auto simp add: h_def split: if_splits)
  show ?thesis
  proof (cases "fst h = GST_FLOW_OK")
    case False
    with assms(2) True have "pushed (snd t) = pushed (snd (snd h))" "fst t = fst (snd h)"
      by (auto simp add: gst_vorbisenc_chain_def h_def case_prod_beta split: if_splits)
    with lh show ?thesis
      using headers_before_data_frame [of w0 "snd h" t] by simp
  next
    case ok: True
    from assms(2) True ok obtain s2 where
      s2: "submit_samples buffer (snd h) = Some s2"
          "t = snd (gst_vorbisenc_output_buffers (blocks reply) s2)"
      by (auto simp add: gst_vorbisenc_chain_def h_def case_prod_beta
          split: if_splits option.splits)
    note f = submit_samples_fields [OF s2(1)]
    have "headers_before_data w0 s2"
      by (rule headers_before_data_frame [OF lh]) (simp_all add: f)
    moreover have "header_sent (fst s2)" using sent [OF ok] f(3) by simp
    ultimately show ?thesis
      unfolding s2(2) by (rule headers_before_data_drain)
  qed
qed

lemma headers_before_data_chain_all:
  assumes "headers_before_data w0 s" "chain_all rbs s = Some t"
  shows "headers_before_data w0 t"
  using assms
proof (induction rbs arbitrary: s)
  case Nil
  then show ?case by simp
next
  case (Cons rb rbs)
  from Cons.prems(2) obtain ret s1 where
    s1: "gst_vorbisenc_chain (fst rb) (snd rb) s = Some (ret, s1)" "chain_all rbs s1 = Some t"
    by (auto split: option.splits)
  from headers_before_data_chain [OF Cons.prems(1) s1(1)] have "headers_before_data w0 s1" .
  from Cons.IH [OF this s1(2)] show ?case .
qed

lemma headers_before_data_run:
  assumes "\<not> header_sent enc" "0 < channels enc" "channels enc < 2 ^ 31"
  shows "\<exists>t. chain_all rbs (enc, w) = Some t \<and> headers_before_data w t"
proof -
  from chain_all_returns [of "(enc, w)" rbs] assms(2,3) obtain t where
    t: "chain_all rbs (enc, w) = Some t" by auto
  have "headers_before_data w (enc, w)"
    using assms(1) by (simp add: headers_before_data_def new_output_def
        header_part_def data_units_def)
  from headers_before_data_chain_all [OF this t] t show ?thesis by blast
qed


subsection \<open>The units of the drain loop\<close>







lemma handed_append_refused:
  "handed p n pkts \<noteq> pkts \<Longrightarrow> handed p n (pkts @ rest) = handed p n pkts"
  by (induction pkts arbitrary: n) (auto split: if_splits)






subsection \<open>The units of a run\<close>





subsection \<open>Headers first (C1)\<close>

text \<open>
  C1, as the code has it, for the output of the chain function over the buffers of a
  session. When the run starts set up with no header sent and the peer accepts the three
  header pushes of the first buffer, the first three output units are the
  identification, comment and codebook headers of the backend, in that order, each with
  time stamp and duration \<open>GST_CLOCK_TIME_NONE\<close> and end offset 0; every later unit is a
  data unit, so no data unit comes before them; the backend is asked for the headers once
  in the whole run. From any set-up state with \<open>header_sent\<close> on, a run of the chain
  function keeps the flag on, never asks the backend for headers, pushes data units only
  and leaves the stream header as it is. From any state with \<open>header_sent\<close> off,
  whatever the peer answers, what a run of the chain function pushes is a sequence of
  header units followed by a sequence of data units, and there is a data unit only if the
  flag is on at the end and at least three header units were pushed. What the
  end-of-stream event pushes is not output of the chain function and is the matter of C5.
\<close>

theorem headers_first_and_once:
  "(setup_flag enc \<and> \<not> header_sent enc \<and> accepts_headers w \<and>
    0 < channels enc \<and> channels enc < 2 ^ 31 \<longrightarrow>
      (case chain_all (rb # rbs) (enc, w) of
         None \<Rightarrow> False
       | Some (enc', w') \<Rightarrow>
           take 3 (new_output w w') = header_units enc (fst rb) \<and>
           map GST_BUFFER_DATA (take 3 (new_output w w')) =
             [packet (header (fst rb)), packet (header_comm (fst rb)),
              packet (header_code (fst rb))] \<and>
           list_all (\<lambda>b. GST_BUFFER_TIMESTAMP b = GST_CLOCK_TIME_NONE \<and>
                         GST_BUFFER_DURATION b = GST_CLOCK_TIME_NONE \<and>
                         GST_BUFFER_OFFSET_END b = 0) (take 3 (new_output w w')) \<and>
           list_all (\<lambda>b. \<not> GST_BUFFER_FLAG_IN_CAPS b) (drop 3 (new_output w w')) \<and>
           header_sent enc' \<and>
           headerout_calls (new_calls w w') = 1))
   \<and> (setup_flag enc \<and> header_sent enc \<and> 0 < channels enc \<and> channels enc < 2 ^ 31 \<longrightarrow>
      (case chain_all rbs (enc, w) of
         None \<Rightarrow> False
       | Some (enc', w') \<Rightarrow>
           header_sent enc' \<and>
           headerout_calls (new_calls w w') = 0 \<and>
           list_all (\<lambda>b. \<not> GST_BUFFER_FLAG_IN_CAPS b) (new_output w w') \<and>
           streamheader w' = streamheader w))
   \<and> (\<not> header_sent enc \<and> 0 < channels enc \<and> channels enc < 2 ^ 31 \<longrightarrow>
      (case chain_all rbs (enc, w) of
         None \<Rightarrow> False
       | Some (enc', w') \<Rightarrow>
           new_output w w' = header_part (new_output w w') @ data_units (new_output w w') \<and>
           (data_units (new_output w w') = [] \<or>
            (header_sent enc' \<and> 3 \<le> length (header_part (new_output w w'))))))"
proof (intro conjI impI)
  assume a: "setup_flag enc \<and> \<not> header_sent enc \<and> accepts_headers w \<and>
    0 < channels enc \<and> channels enc < 2 ^ 31"
  let ?s1 = "handshake_done (fst rb) (snd rb) (enc, w)"
  from a session_streamed [of enc w rb rbs] obtain t where
    t: "chain_all (rb # rbs) (enc, w) = Some t" "streamed ?s1 t" by blast
  from t(2) obtain us cs where
    us: "pushed (snd t) = pushed (snd ?s1) @ us"
        "list_all (\<lambda>b. \<not> GST_BUFFER_FLAG_IN_CAPS b) us" and
    cs: "backend (snd t) = backend (snd ?s1) @ cs" "headerout_calls cs = 0"
    unfolding streamed_def by auto
  have out: "new_output w (snd t) = header_units enc (fst rb) @ us"
    by (simp add: new_output_def us(1))
  have calls: "new_calls w (snd t) = Vorbis_analysis_headerout # cs"
    by (simp add: new_calls_def cs(1))
  have sent: "header_sent (fst t)"
    using streamed_fields(2) [OF t(2)] by simp
  have hc: "headerout_calls (new_calls w (snd t)) = 1"
    using cs(2) by (simp add: calls headerout_calls_def)
  have units: "map GST_BUFFER_DATA (header_units enc (fst rb)) =
             [packet (header (fst rb)), packet (header_comm (fst rb)),
              packet (header_code (fst rb))]"
    "list_all (\<lambda>b. GST_BUFFER_TIMESTAMP b = GST_CLOCK_TIME_NONE \<and>
                         GST_BUFFER_DURATION b = GST_CLOCK_TIME_NONE \<and>
                         GST_BUFFER_OFFSET_END b = 0) (header_units enc (fst rb))"
    by (simp_all add: header_units_def)
  show "case chain_all (rb # rbs) (enc, w) of
         None \<Rightarrow> False
       | Some (enc', w') \<Rightarrow>
           take 3 (new_output w w') = header_units enc (fst rb) \<and>
           map GST_BUFFER_DATA (take 3 (new_output w w')) =
             [packet (header (fst rb)), packet (header_comm (fst rb)),
              packet (header_code (fst rb))] \<and>
           list_all (\<lambda>b. GST_BUFFER_TIMESTAMP b = GST_CLOCK_TIME_NONE \<and>
                         GST_BUFFER_DURATION b = GST_CLOCK_TIME_NONE \<and>
                         GST_BUFFER_OFFSET_END b = 0) (take 3 (new_output w w')) \<and>
           list_all (\<lambda>b. \<not> GST_BUFFER_FLAG_IN_CAPS b) (drop 3 (new_output w w')) \<and>
           header_sent enc' \<and>
           headerout_calls (new_calls w w') = 1"
    unfolding t(1) using us(2) sent hc units
    by (simp add: case_prod_beta out)
next
  assume a: "setup_flag enc \<and> header_sent enc \<and> 0 < channels enc \<and> channels enc < 2 ^ 31"
  from a chain_all_streamed [of "(enc, w)" rbs] obtain t where
    t: "chain_all rbs (enc, w) = Some t" "streamed (enc, w) t" by auto
  from t(2) obtain us cs where
    us: "pushed (snd t) = pushed w @ us"
        "list_all (\<lambda>b. \<not> GST_BUFFER_FLAG_IN_CAPS b) us" and
    cs: "backend (snd t) = backend w @ cs" "headerout_calls cs = 0"
    unfolding streamed_def by auto
  note f = streamed_fields [OF t(2)]
  show "case chain_all rbs (enc, w) of
         None \<Rightarrow> False
       | Some (enc', w') \<Rightarrow>
           header_sent enc' \<and>
           headerout_calls (new_calls w w') = 0 \<and>
           list_all (\<lambda>b. \<not> GST_BUFFER_FLAG_IN_CAPS b) (new_output w w') \<and>
           streamheader w' = streamheader w"
    unfolding t(1) using a f(2,7) us cs
    by (simp add: case_prod_beta new_output_def new_calls_def)
next
  assume a: "\<not> header_sent enc \<and> 0 < channels enc \<and> channels enc < 2 ^ 31"
  from a headers_before_data_run [of enc rbs w] obtain t where
    t: "chain_all rbs (enc, w) = Some t" "headers_before_data w t" by blast
  show "case chain_all rbs (enc, w) of
         None \<Rightarrow> False
       | Some (enc', w') \<Rightarrow>
           new_output w w' = header_part (new_output w w') @ data_units (new_output w w') \<and>
           (data_units (new_output w w') = [] \<or>
            (header_sent enc' \<and> 3 \<le> length (header_part (new_output w w'))))"
    unfolding t(1) using t(2)
    by (auto simp add: case_prod_beta headers_before_data_def)
qed

text \<open>
  C1, at a concrete input: the stereo session with a peer that accepts every push; two
  buffers, the backend yielding one packet during the second. The first three units on
  the output are the three headers, the fourth is the data unit.
\<close>

theorem headers_first_and_once_witness:
  "setup_flag (fst (stereo_session accepting)) \<and>
   \<not> header_sent (fst (stereo_session accepting)) \<and>
   accepts_headers (snd (stereo_session accepting)) \<and>
   channels (fst (stereo_session accepting)) = 2 \<and>
   (case chain_all [(three_headers [], four_samples 0),
                    (three_headers [[\<lparr>packet = [7], granulepos = 2\<rparr>]], four_samples 0)]
           (stereo_session accepting) of
      None \<Rightarrow> False
    | Some (enc', w') \<Rightarrow>
        map GST_BUFFER_DATA (take 3 (pushed w')) = [[1], [3], [5]] \<and>
        map GST_BUFFER_TIMESTAMP (take 3 (pushed w')) =
          [GST_CLOCK_TIME_NONE, GST_CLOCK_TIME_NONE, GST_CLOCK_TIME_NONE] \<and>
        map GST_BUFFER_FLAG_IN_CAPS (pushed w') = [True, True, True, False] \<and>
        header_sent enc')"
proof -
  have h: "setup_flag (fst (stereo_session accepting)) \<and>
      \<not> header_sent (fst (stereo_session accepting)) \<and>
      accepts_headers (snd (stereo_session accepting)) \<and>
      0 < channels (fst (stereo_session accepting)) \<and>
      channels (fst (stereo_session accepting)) < 2 ^ 31"
    by (simp add: stereo_session_eq gst_vorbisenc_init_def quiet_world_def accepting_def
        accepts_headers_def)
  have run: "chain_all [(three_headers [], four_samples 0),
                    (three_headers [[\<lparr>packet = [7], granulepos = 2\<rparr>]], four_samples 0)]
           (stereo_session accepting) \<noteq> None \<and>
     map GST_BUFFER_FLAG_IN_CAPS (pushed (snd (the (chain_all
        [(three_headers [], four_samples 0),
         (three_headers [[\<lparr>packet = [7], granulepos = 2\<rparr>]], four_samples 0)]
           (stereo_session accepting))))) = [True, True, True, False]"
    by (simp add: run_defs Let_def)
  from headers_first_and_once
         [where enc = "fst (stereo_session accepting)" and w = "snd (stereo_session accepting)"
            and rb = "(three_headers [], four_samples 0)"
            and rbs = "[(three_headers [[\<lparr>packet = [7], granulepos = 2\<rparr>]], four_samples 0)]"]
       h run
  show ?thesis
    by (auto simp add: new_output_def header_units_def three_headers_def
        stereo_session_eq quiet_world_def gst_vorbisenc_init_def
        split: option.splits prod.splits)
qed

text \<open>
  C1 as stated fails when a header push is refused. In the stereo session the peer
  refuses the first push only. When the host delivers another buffer, the first three
  output units are the identification header, the identification header again, and the
  comment header. When the end of the stream follows the refused buffer instead and the
  backend yields one packet, the output is the identification header and then a data
  unit, pushed by the end-of-stream path with \<open>header_sent\<close> off.
\<close>

theorem headers_first_counterexample:
  "setup_flag (fst (stereo_session refusing_first)) \<and>
   \<not> header_sent (fst (stereo_session refusing_first)) \<and>
   (case chain_all [(three_headers [], four_samples 0), (three_headers [], four_samples 0)]
           (stereo_session refusing_first) of
      None \<Rightarrow> False
    | Some (enc', w') \<Rightarrow>
        map GST_BUFFER_DATA (take 3 (pushed w')) = [[1], [1], [3]] \<and>
        map GST_BUFFER_DATA (take 3 (pushed w')) \<noteq>
          [packet (header (three_headers [])), packet (header_comm (three_headers [])),
           packet (header_code (three_headers []))]) \<and>
   (case chain_all [(three_headers [], four_samples 0)] (stereo_session refusing_first) of
      None \<Rightarrow> False
    | Some s' \<Rightarrow>
        \<not> header_sent (fst s') \<and>
        map GST_BUFFER_DATA
          (pushed (snd (snd (gst_vorbisenc_sink_event
                               (three_headers [[\<lparr>packet = [7], granulepos = 0\<rparr>]]) True
                               GST_EVENT_EOS s')))) = [[1], [7]] \<and>
        map GST_BUFFER_FLAG_IN_CAPS
          (pushed (snd (snd (gst_vorbisenc_sink_event
                               (three_headers [[\<lparr>packet = [7], granulepos = 0\<rparr>]]) True
                               GST_EVENT_EOS s')))) = [True, False])"
  by (simp add: run_defs Let_def)

subsection \<open>Mode selection (C2)\<close>

text \<open>
  C2, as the code has it. The one set-up call the element makes is the quality (VBR)
  call exactly when the flag \<open>quality_set\<close> is on or the three bit rates are all negative,
  and is the managed call otherwise, with \<open>-1\<close> for a bound that is not positive. The
  flag is off on a new instance. Assigning the quality turns it on when the value is at
  least 0 and off when the value is negative; assigning a bit rate leaves it as it is; a
  set-up (also through the caps of the sink pad, and whether the backend accepts it or
  not) turns it on when it finds the three bit rates negative and leaves it as it is
  otherwise. So after assigning a quality of at least 0 the mode is the quality mode
  whatever the bit rates are; and assigning a bit rate and a quality in either order gives
  the same state, hence the same mode.
\<close>

theorem setup_mode_selection:
  "setup_mode accept (enc, w) =
     [if quality_set enc \<or> (bitrate enc < 0 \<and> min_bitrate enc < 0 \<and> max_bitrate enc < 0)
      then QualityVBR else ManagedBitrate]
   \<and> (\<not> (quality_set enc \<or> (bitrate enc < 0 \<and> min_bitrate enc < 0 \<and> max_bitrate enc < 0))
        \<longrightarrow> hd (setup_calls accept (enc, w)) =
              Vorbis_encode_setup_managed (channels enc) (frequency enc)
                (if 0 < max_bitrate enc then max_bitrate enc else - 1) (bitrate enc)
                (if 0 < min_bitrate enc then min_bitrate enc else - 1))
   \<and> \<not> quality_set gst_vorbisenc_init
   \<and> quality_set (fst (gst_vorbisenc_set_property (ARG_QUALITY q) (enc, w))) = (0 \<le> q)
   \<and> quality_set (fst (gst_vorbisenc_set_property (ARG_BITRATE b) (enc, w))) = quality_set enc
   \<and> quality_set (fst (gst_vorbisenc_set_property (ARG_MIN_BITRATE b) (enc, w)))
       = quality_set enc
   \<and> quality_set (fst (gst_vorbisenc_set_property (ARG_MAX_BITRATE b) (enc, w)))
       = quality_set enc
   \<and> quality_set (fst (snd (gst_vorbisenc_setup accept (enc, w)))) =
       (quality_set enc \<or> (bitrate enc < 0 \<and> min_bitrate enc < 0 \<and> max_bitrate enc < 0))
   \<and> quality_set (fst (snd (gst_vorbisenc_sink_setcaps accept c r (enc, w)))) =
       (quality_set enc \<or> (bitrate enc < 0 \<and> min_bitrate enc < 0 \<and> max_bitrate enc < 0))
   \<and> (0 \<le> q \<longrightarrow>
        setup_mode accept (gst_vorbisenc_set_property (ARG_QUALITY q) (enc, w)) = [QualityVBR])
   \<and> gst_vorbisenc_set_property (ARG_QUALITY q)
        (gst_vorbisenc_set_property (ARG_BITRATE b) (enc, w)) =
      gst_vorbisenc_set_property (ARG_BITRATE b)
        (gst_vorbisenc_set_property (ARG_QUALITY q) (enc, w))"
proof -
  have mode: "setup_mode accept (enc, w) =
     [if quality_set enc \<or> (bitrate enc < 0 \<and> min_bitrate enc < 0 \<and> max_bitrate enc < 0)
      then QualityVBR else ManagedBitrate]"
    by (rule setup_mode_eq)
  have managed_call:
    "\<not> (quality_set enc \<or> (bitrate enc < 0 \<and> min_bitrate enc < 0 \<and> max_bitrate enc < 0))
        \<longrightarrow> hd (setup_calls accept (enc, w)) =
              Vorbis_encode_setup_managed (channels enc) (frequency enc)
                (if 0 < max_bitrate enc then max_bitrate enc else - 1) (bitrate enc)
                (if 0 < min_bitrate enc then min_bitrate enc else - 1)"
    by (simp add: hd_setup_calls)
  have fresh: "\<not> quality_set gst_vorbisenc_init"
    by (simp add: gst_vorbisenc_init_def)
  have assigned: "quality_set (fst (gst_vorbisenc_set_property (ARG_QUALITY q) (enc, w))) = (0 \<le> q)"
    by simp
  have kept:
    "quality_set (fst (gst_vorbisenc_set_property (ARG_BITRATE b) (enc, w))) = quality_set enc"
    "quality_set (fst (gst_vorbisenc_set_property (ARG_MIN_BITRATE b) (enc, w)))
       = quality_set enc"
    "quality_set (fst (gst_vorbisenc_set_property (ARG_MAX_BITRATE b) (enc, w)))
       = quality_set enc"
    by (simp_all add: update_managed_def Let_def)
  have forced: "quality_set (fst (snd (gst_vorbisenc_setup accept (enc, w)))) =
       (quality_set enc \<or> (bitrate enc < 0 \<and> min_bitrate enc < 0 \<and> max_bitrate enc < 0))"
    by (simp add: gst_vorbisenc_setup_def update_start_message_def setup_finish_def Let_def)
  have caps: "quality_set (fst (snd (gst_vorbisenc_sink_setcaps accept c r (enc, w)))) =
       (quality_set enc \<or> (bitrate enc < 0 \<and> min_bitrate enc < 0 \<and> max_bitrate enc < 0))"
    by (simp add: gst_vorbisenc_sink_setcaps_def gst_vorbisenc_setup_def
        update_start_message_def setup_finish_def Let_def)
  have dominant: "0 \<le> q \<longrightarrow>
        setup_mode accept (gst_vorbisenc_set_property (ARG_QUALITY q) (enc, w)) = [QualityVBR]"
    by (simp add: setup_mode_eq)
  have order: "gst_vorbisenc_set_property (ARG_QUALITY q)
        (gst_vorbisenc_set_property (ARG_BITRATE b) (enc, w)) =
      gst_vorbisenc_set_property (ARG_BITRATE b)
        (gst_vorbisenc_set_property (ARG_QUALITY q) (enc, w))"
    by simp
  from mode managed_call fresh assigned kept forced caps dominant order
  show ?thesis by blast
qed

text \<open>
  C2, at a concrete input: on the fresh instance, a bit rate of 128000 and then a
  quality of 0.5 give the quality mode, as the reverse order does; the bit rate alone
  gives the managed mode with both bounds \<open>-1\<close>.
\<close>

theorem setup_mode_selection_witness:
  "setup_mode True
     (gst_vorbisenc_set_property (ARG_QUALITY (1 / 2))
        (gst_vorbisenc_set_property (ARG_BITRATE 128000)
           (gst_vorbisenc_init, quiet_world accepting))) = [QualityVBR]
   \<and> setup_mode True
     (gst_vorbisenc_set_property (ARG_BITRATE 128000)
        (gst_vorbisenc_set_property (ARG_QUALITY (1 / 2))
           (gst_vorbisenc_init, quiet_world accepting))) = [QualityVBR]
   \<and> hd (setup_calls True
        (gst_vorbisenc_init\<lparr>bitrate := 128000\<rparr>, quiet_world accepting)) =
      Vorbis_encode_setup_managed (- 1) (- 1) (- 1) 128000 (- 1)"
  using setup_mode_selection
          [where accept = True and enc = "gst_vorbisenc_init\<lparr>bitrate := 128000\<rparr>"
             and w = "quiet_world accepting" and q = "1 / 2" and b = 128000]
        setup_mode_selection
          [where accept = True and enc = "gst_vorbisenc_init"
             and w = "quiet_world accepting" and q = "1 / 2" and b = 128000]
  by (simp add: gst_vorbisenc_init_def clamp_lowest_def LOWEST_BITRATE_def)

text \<open>
  C2 as stated fails in both directions. The quality mode without any assignment of the
  quality: the stereo session has been set up with no bit rate given, which turned
  \<open>quality_set\<close> on; a bit rate of 128000 is assigned afterwards, and the next set-up makes
  the quality call with the default quality, although the same assignment on a fresh
  instance gives the managed call. The managed mode after an assignment of the quality:
  on a fresh instance a bit rate of 128000 and the quality \<open>-0.0625\<close> are assigned, and
  the set-up makes the managed call.
\<close>

theorem setup_mode_counterexample:
  "bitrate (fst (gst_vorbisenc_set_property (ARG_BITRATE 128000) (stereo_session accepting)))
     = 128000
   \<and> setup_mode True
        (gst_vorbisenc_set_property (ARG_BITRATE 128000) (stereo_session accepting))
      = [QualityVBR]
   \<and> hd (setup_calls True
        (gst_vorbisenc_set_property (ARG_BITRATE 128000) (stereo_session accepting)))
      = Vorbis_encode_setup_vbr 2 44100 QUALITY_DEFAULT
   \<and> setup_mode True
        (gst_vorbisenc_set_property (ARG_BITRATE 128000)
           (gst_vorbisenc_init, quiet_world accepting))
      = [ManagedBitrate]
   \<and> setup_mode True
        (gst_vorbisenc_set_property (ARG_QUALITY (- 1 / 16))
           (gst_vorbisenc_set_property (ARG_BITRATE 128000)
              (gst_vorbisenc_init, quiet_world accepting)))
      = [ManagedBitrate]"
  by (simp add: setup_mode_eq hd_setup_calls stereo_session_eq gst_vorbisenc_init_def
      clamp_lowest_def LOWEST_BITRATE_def)


subsection \<open>Time stamps and durations of the data units (C3)\<close>



subsection \<open>The offset of the granule clock (C4)\<close>





subsection \<open>The end of the stream before the first buffer (C5)\<close>





subsection \<open>Bit-rate properties (C6)\<close>

text \<open>
  C6. Assigning \<open>min_bitrate\<close> or \<open>max_bitrate\<close> stores 6000 for a value from 0 up to
  5999 and the value itself otherwise; afterwards the managed flag says that both
  bounds are positive; and the \<open>managed\<close> notification is raised exactly when the flag
  differs from its value before the assignment. Assigning \<open>bitrate\<close> stores the value
  with the same floor.
\<close>

theorem bitrate_floor_and_managed_flag:
  "(case gst_vorbisenc_set_property (ARG_MIN_BITRATE v) (enc, w) of (enc', w') \<Rightarrow>
      min_bitrate enc' = (if 0 \<le> v \<and> v < 6000 then 6000 else v) \<and>
      max_bitrate enc' = max_bitrate enc \<and>
      managed enc' = (0 < min_bitrate enc' \<and> 0 < max_bitrate enc') \<and>
      notified w' = notified w @ (if managed enc' \<noteq> managed enc then [''managed''] else []))
   \<and> (case gst_vorbisenc_set_property (ARG_MAX_BITRATE v) (enc, w) of (enc', w') \<Rightarrow>
      max_bitrate enc' = (if 0 \<le> v \<and> v < 6000 then 6000 else v) \<and>
      min_bitrate enc' = min_bitrate enc \<and>
      managed enc' = (0 < min_bitrate enc' \<and> 0 < max_bitrate enc') \<and>
      notified w' = notified w @ (if managed enc' \<noteq> managed enc then [''managed''] else []))
   \<and> (case gst_vorbisenc_set_property (ARG_BITRATE v) (enc, w) of (enc', w') \<Rightarrow>
      bitrate enc' = (if 0 \<le> v \<and> v < 6000 then 6000 else v) \<and>
      managed enc' = managed enc \<and> notified w' = notified w)"
  by (auto simp add: update_managed_def clamp_lowest_def LOWEST_BITRATE_def
      g_object_notify_def Let_def)

text \<open>
  C6, at a concrete input: with \<open>max_bitrate\<close> at 128000 and the flag off, assigning
  4000 to \<open>min_bitrate\<close> stores 6000, turns the flag on and raises the notification;
  assigning 4000 to \<open>bitrate\<close> stores 6000.
\<close>

theorem bitrate_floor_and_managed_flag_witness:
  "min_bitrate (fst (gst_vorbisenc_set_property (ARG_MIN_BITRATE 4000)
      (gst_vorbisenc_init\<lparr>max_bitrate := 128000\<rparr>, quiet_world accepting))) = 6000
   \<and> managed (fst (gst_vorbisenc_set_property (ARG_MIN_BITRATE 4000)
      (gst_vorbisenc_init\<lparr>max_bitrate := 128000\<rparr>, quiet_world accepting)))
   \<and> notified (snd (gst_vorbisenc_set_property (ARG_MIN_BITRATE 4000)
      (gst_vorbisenc_init\<lparr>max_bitrate := 128000\<rparr>, quiet_world accepting))) = [''managed'']
   \<and> bitrate (fst (gst_vorbisenc_set_property (ARG_BITRATE 4000)
      (gst_vorbisenc_init\<lparr>max_bitrate := 128000\<rparr>, quiet_world accepting))) = 6000"
  using bitrate_floor_and_managed_flag
          [of 4000 "gst_vorbisenc_init\<lparr>max_bitrate := 128000\<rparr>" "quiet_world accepting"]
  by (simp add: gst_vorbisenc_init_def quiet_world_def split: prod.splits)

subsection \<open>A buffer before the set-up (C7)\<close>

text \<open>
  C7. When the \<open>setup\<close> flag is off, the chain function releases the buffer, posts an
  error of the core domain with the negotiation code, and returns
  \<open>GST_FLOW_UNEXPECTED\<close>, which is not \<open>GST_FLOW_OK\<close>. The instance structure is
  unchanged (so the granule clock, \<open>header_sent\<close> and \<open>samples_in\<close> are), nothing is
  handed to the backend and nothing is pushed.
\<close>

theorem chain_not_setup:
  assumes "\<not> setup_flag enc"
  shows "case gst_vorbisenc_chain reply buffer (enc, w) of
           None \<Rightarrow> False
         | Some (ret, enc', w') \<Rightarrow>
             ret = GST_FLOW_UNEXPECTED \<and> ret \<noteq> GST_FLOW_OK \<and> enc' = enc \<and>
             posted w' = posted w @ [(CORE, NEGOTIATION)] \<and>
             unreffed w' = unreffed w @ [buffer] \<and>
             backend w' = backend w \<and> pushed w' = pushed w \<and>
             streamheader w' = streamheader w"
  using assms by (simp add: gst_vorbisenc_chain_def)

text \<open>
  C7, at a concrete input: the fresh instance has never been set up; a buffer of four
  samples is refused.
\<close>

theorem chain_not_setup_witness:
  "\<not> setup_flag gst_vorbisenc_init \<and>
   (case gst_vorbisenc_chain (three_headers []) (four_samples 0)
           (gst_vorbisenc_init, quiet_world accepting) of
      None \<Rightarrow> False
    | Some (ret, enc', w') \<Rightarrow>
        ret = GST_FLOW_UNEXPECTED \<and> enc' = gst_vorbisenc_init \<and>
        posted w' = [(CORE, NEGOTIATION)] \<and> backend w' = [] \<and> pushed w' = [])"
proof -
  have off: "\<not> setup_flag gst_vorbisenc_init"
    by (simp add: gst_vorbisenc_init_def)
  from chain_not_setup [where enc = gst_vorbisenc_init and reply = "three_headers []"
         and buffer = "four_samples 0" and w = "quiet_world accepting", OF off]
  show ?thesis
    using off by (simp add: quiet_world_def split: option.splits prod.splits)
qed

subsection \<open>Granule positions without a time (C8)\<close>

text \<open>
  C8, as the code has it. For a negative granule position (\<open>-1\<close> among them) both
  conversions return \<open>GST_CLOCK_TIME_NONE\<close>, which is not 0. For a non-negative granule
  position and a positive sample rate, the direct conversion returns
  \<open>granule_position * time_unit / sample_rate\<close> whenever that number fits 64 bits.
\<close>

theorem granulepos_negative_and_direct:
  "(sint gp < 0 \<longrightarrow>
      granulepos_to_timestamp enc gp = GST_CLOCK_TIME_NONE \<and>
      granulepos_to_timestamp_offset enc gp = GST_CLOCK_TIME_NONE \<and>
      GST_CLOCK_TIME_NONE \<noteq> 0)
   \<and> (0 \<le> sint gp \<and> 0 < frequency enc \<and> frequency enc < 2 ^ 31 \<and>
       spec_direct_time enc gp < 2 ^ 64 \<longrightarrow>
      unat (granulepos_to_timestamp enc gp) = spec_direct_time enc gp)"
proof -
  have none_nonzero: "GST_CLOCK_TIME_NONE \<noteq> 0"
    by (simp add: GST_CLOCK_TIME_NONE_def)
  show ?thesis
    using negative_is_none [of gp enc] direct_in_range [of gp enc] none_nonzero by blast
qed

text \<open>
  C8, at concrete inputs: at 44100 Hz the granule position \<open>-1\<close> has no time under
  either conversion, and the granule position 44100 is one second.
\<close>

theorem granulepos_negative_and_direct_witness:
  "granulepos_to_timestamp (fst (stereo_session accepting)) (- 1) = GST_CLOCK_TIME_NONE
   \<and> granulepos_to_timestamp_offset (fst (stereo_session accepting)) (- 1) = GST_CLOCK_TIME_NONE
   \<and> unat (granulepos_to_timestamp (fst (stereo_session accepting)) 44100) = 1000000000"
  using granulepos_negative_and_direct [of "- 1" "fst (stereo_session accepting)"]
        granulepos_negative_and_direct [of 44100 "fst (stereo_session accepting)"]
  by (simp add: stereo_session_eq spec_direct_time_def)

text \<open>
  C8 as stated fails where the quotient does not fit the 64-bit result: at 44100 Hz the
  granule position \<open>2 ^ 62\<close> is non-negative and the direct conversion does not return
  \<open>granule_position * time_unit / sample_rate\<close>.
\<close>

theorem granulepos_direct_counterexample:
  "0 \<le> sint (2 ^ 62 :: 64 word)
   \<and> unat (granulepos_to_timestamp (fst (stereo_session accepting)) (2 ^ 62))
       \<noteq> unat (2 ^ 62 :: 64 word) * 1000000000 div 44100"
  by (simp add: stereo_session_eq granulepos_to_timestamp_def gst_util_uint64_scale_def
      GST_SECOND_def G_MAXUINT64_def unsigned_minus_1_eq_mask mask_eq_exp_minus_1)

subsection \<open>Ingestion (C9)\<close>

text \<open>
  C9, as the code has it. In a set-up session with C channels (C at least 1), for a
  buffer whose handshake is over or succeeds in this call (the headers have been sent, or
  the peer accepts the three header pushes), the chain function submits one block to the
  backend, with the frame count \<open>byte length / (C * 4)\<close>, in which sample \<open>i\<close> of channel
  \<open>j\<close> is input element \<open>i * C + j\<close>, and \<open>samples_in\<close> advances by that frame count.
  The byte length is a \<open>guint\<close>.
\<close>

theorem chain_submits_deinterleaved_block:
  assumes "setup_flag enc"
    and "0 < channels enc" and "channels enc < 2 ^ 31"
    and "raw_size buffer < 2 ^ 32"
    and "header_sent enc \<or> accepts_headers w"
  shows "case gst_vorbisenc_chain reply buffer (enc, w) of
           None \<Rightarrow> False
         | Some (ret, enc', w') \<Rightarrow>
             spec_frames enc buffer = raw_size buffer div (nat (channels enc) * 4) \<and>
             wrote_calls (new_calls w w') =
               [(spec_deinterleave (nat (channels enc)) (spec_frames enc buffer)
                   (raw_data buffer), spec_frames enc buffer)] \<and>
             (\<forall>j < nat (channels enc). \<forall>i < spec_frames enc buffer.
                spec_deinterleave (nat (channels enc)) (spec_frames enc buffer)
                  (raw_data buffer) ! j ! i = raw_data buffer ! (i * nat (channels enc) + j)) \<and>
             samples_in enc' = samples_in enc + of_nat (spec_frames enc buffer)"
proof (cases "header_sent enc")
  case True
  have c: "gst_vorbisenc_chain reply buffer (enc, w) =
     Some (gst_vorbisenc_output_buffers (blocks reply) (spec_ingested buffer (enc, w)))"
    using chain_after_headers [OF assms(1) True assms(2,3,4)] .
  have "backend (snd (enc, w)) = backend w @ []" "wrote_calls [] = []"
    by (simp_all add: wrote_calls_def)
  from drain_after_ingest [where reply = reply and buffer = buffer, OF this]
  show ?thesis
    unfolding c by (simp add: case_prod_beta spec_deinterleave_nth spec_frames_def)
next
  case False
  with assms(5) have acc: "accepts_headers w" by simp
  have c: "gst_vorbisenc_chain reply buffer (enc, w) =
     Some (gst_vorbisenc_output_buffers (blocks reply)
             (spec_ingested buffer (handshake_done reply buffer (enc, w))))"
    using chain_first_buffer [OF assms(1) False acc assms(2,3,4)] .
  have "backend (snd (handshake_done reply buffer (enc, w))) =
          backend w @ [Vorbis_analysis_headerout]"
       "wrote_calls [Vorbis_analysis_headerout] = []"
    by (simp_all add: wrote_calls_def)
  from drain_after_ingest [where reply = reply and buffer = buffer, OF this]
  show ?thesis
    unfolding c by (simp add: case_prod_beta spec_deinterleave_nth spec_frames_def)
qed

text \<open>
  C9, at a concrete input: the first buffer of the stereo session holds the samples
  10, 20, 11, 21. Two frames are submitted, 10 and 11 for the first channel, 20 and 21
  for the second, and \<open>samples_in\<close> is 2.
\<close>

theorem chain_submits_deinterleaved_block_witness:
  "setup_flag (fst (stereo_session accepting)) \<and>
   channels (fst (stereo_session accepting)) = 2 \<and>
   raw_size (four_samples 0) = 16 \<and>
   accepts_headers (snd (stereo_session accepting)) \<and>
   (case gst_vorbisenc_chain (three_headers []) (four_samples 0) (stereo_session accepting) of
      None \<Rightarrow> False
    | Some (ret, enc', w') \<Rightarrow>
        wrote_calls (new_calls (snd (stereo_session accepting)) w') = [([[10, 11], [20, 21]], 2)]
        \<and> samples_in enc' = 2)"
proof -
  have a: "setup_flag (fst (stereo_session accepting))"
    and b: "0 < channels (fst (stereo_session accepting))"
    and c: "channels (fst (stereo_session accepting)) < 2 ^ 31"
    and d: "raw_size (four_samples 0) < 2 ^ 32"
    and e: "header_sent (fst (stereo_session accepting))
            \<or> accepts_headers (snd (stereo_session accepting))"
    by (simp_all add: stereo_session_eq gst_vorbisenc_init_def quiet_world_def accepting_def
        accepts_headers_def raw_size_def four_samples_def)
  have sd: "spec_deinterleave 2 2 [10, 20, 11, 21] = [[10, 11], [20, 21 :: 32 word]]"
    by (simp add: spec_deinterleave_def upt_rec numeral_2_eq_2)
  from chain_submits_deinterleaved_block
         [where enc = "fst (stereo_session accepting)" and w = "snd (stereo_session accepting)"
            and buffer = "four_samples 0" and reply = "three_headers []",
          OF a b c d e]
  show ?thesis
    using a e
    by (auto simp add: stereo_session_eq gst_vorbisenc_init_def quiet_world_def accepting_def
        accepts_headers_def raw_size_def four_samples_def spec_frames_def sd
        split: option.splits prod.splits)
qed

text \<open>
  C9 as stated fails when the header handshake of the call is cut short: in the stereo
  session, set up, the peer refuses the first push; the chain function returns that
  refusal for a buffer of two frames, nothing is submitted to the backend and
  \<open>samples_in\<close> stays 0.
\<close>

theorem chain_submits_counterexample:
  "setup_flag (fst (stereo_session refusing_first)) \<and>
   channels (fst (stereo_session refusing_first)) = 2 \<and>
   raw_size (four_samples 0) div (2 * 4) = 2 \<and>
   (case gst_vorbisenc_chain (three_headers []) (four_samples 0)
           (stereo_session refusing_first) of
      None \<Rightarrow> False
    | Some (ret, enc', w') \<Rightarrow>
        ret = GST_FLOW_WRONG_STATE \<and>
        wrote_calls (new_calls (snd (stereo_session refusing_first)) w') = [] \<and>
        samples_in enc' = 0)"
  by (simp add: run_defs new_calls_def wrote_calls_def Let_def)

subsection \<open>A negative quality (C10)\<close>

text \<open>
  C10. Assigning the quality marks it as set exactly when the value is at least 0. After
  a negative value the mark is off: if one of the three bit rates is then non-negative
  the set-up makes the managed call; if all three are negative the set-up turns the mark
  on and makes the quality call with the negative value.
\<close>

theorem negative_quality_mode:
  "quality_set (fst (gst_vorbisenc_set_property (ARG_QUALITY v) (enc, w))) = (0 \<le> v)
   \<and> (v < 0 \<and> (0 \<le> bitrate enc \<or> 0 \<le> min_bitrate enc \<or> 0 \<le> max_bitrate enc) \<longrightarrow>
        setup_mode accept (gst_vorbisenc_set_property (ARG_QUALITY v) (enc, w))
          = [ManagedBitrate])
   \<and> (v < 0 \<and> bitrate enc < 0 \<and> min_bitrate enc < 0 \<and> max_bitrate enc < 0 \<longrightarrow>
        setup_mode accept (gst_vorbisenc_set_property (ARG_QUALITY v) (enc, w))
          = [QualityVBR] \<and>
        hd (setup_calls accept (gst_vorbisenc_set_property (ARG_QUALITY v) (enc, w)))
          = Vorbis_encode_setup_vbr (channels enc) (frequency enc) v \<and>
        quality_set (fst (snd (gst_vorbisenc_setup accept
          (gst_vorbisenc_set_property (ARG_QUALITY v) (enc, w))))))"
proof -
  have mark: "quality_set (fst (gst_vorbisenc_set_property (ARG_QUALITY v) (enc, w))) = (0 \<le> v)"
    by simp
  have managed_mode:
    "v < 0 \<and> (0 \<le> bitrate enc \<or> 0 \<le> min_bitrate enc \<or> 0 \<le> max_bitrate enc) \<longrightarrow>
        setup_mode accept (gst_vorbisenc_set_property (ARG_QUALITY v) (enc, w))
          = [ManagedBitrate]"
    by (auto simp add: setup_mode_eq)
  have quality_mode:
    "v < 0 \<and> bitrate enc < 0 \<and> min_bitrate enc < 0 \<and> max_bitrate enc < 0 \<longrightarrow>
        setup_mode accept (gst_vorbisenc_set_property (ARG_QUALITY v) (enc, w))
          = [QualityVBR] \<and>
        hd (setup_calls accept (gst_vorbisenc_set_property (ARG_QUALITY v) (enc, w)))
          = Vorbis_encode_setup_vbr (channels enc) (frequency enc) v \<and>
        quality_set (fst (snd (gst_vorbisenc_setup accept
          (gst_vorbisenc_set_property (ARG_QUALITY v) (enc, w)))))"
    by (simp add: setup_mode_eq hd_setup_calls setup_forces_quality_set)
  from mark managed_mode quality_mode show ?thesis by blast
qed

text \<open>
  C10, at concrete inputs: the quality \<open>-0.05\<close> with a bit rate of 128000 gives the
  managed mode; the same quality on the fresh instance, whose bit rates are all \<open>-1\<close>,
  gives the quality call with \<open>-0.05\<close>.
\<close>

theorem negative_quality_mode_witness:
  "\<not> quality_set (fst (gst_vorbisenc_set_property (ARG_QUALITY (- 1 / 20))
        (gst_vorbisenc_init\<lparr>bitrate := 128000\<rparr>, quiet_world accepting)))
   \<and> setup_mode True (gst_vorbisenc_set_property (ARG_QUALITY (- 1 / 20))
        (gst_vorbisenc_init\<lparr>bitrate := 128000\<rparr>, quiet_world accepting)) = [ManagedBitrate]
   \<and> hd (setup_calls True (gst_vorbisenc_set_property (ARG_QUALITY (- 1 / 20))
        (gst_vorbisenc_init, quiet_world accepting)))
       = Vorbis_encode_setup_vbr (- 1) (- 1) (- 1 / 20)"
  using negative_quality_mode
          [of "- 1 / 20" "gst_vorbisenc_init\<lparr>bitrate := 128000\<rparr>" "quiet_world accepting" True]
        negative_quality_mode
          [of "- 1 / 20" "gst_vorbisenc_init" "quiet_world accepting" True]
  by (simp add: gst_vorbisenc_init_def)

end
